theory Spec2Isabelle
  imports Complex_Main
begin

section \<open>The mission scene service\<close>

text \<open>
  A shallow embedding of \<^verbatim>\<open>mission-scene-service.js\<close>: the \<^verbatim>\<open>MissionScene\<close> service
  that turns a mission, the obstacles and the telemetry into a THREE.js scene.

  Conventions of the embedding.
  \<^item> JavaScript numbers are modelled as \<open>real\<close>: no rounding, no NaN, no infinities.
    \<^verbatim>\<open>Math.sign\<close> is \<open>sgn\<close>, \<^verbatim>\<open>%\<close> on array indices is \<open>mod\<close> on \<open>nat\<close>.
  \<^item> The three arguments of \<^verbatim>\<open>rebuildScene\<close>, the home position of a mission and its six
    component positions may be absent: they are \<open>option\<close>s, \<open>None\<close> being \<^verbatim>\<open>null\<close> or
    \<^verbatim>\<open>undefined\<close>. Reading a property of \<open>None\<close> is the error value \<open>TypeError\<close>, and
    every operation that can throw returns a sum, \<open>Inl\<close> the error. The arrays of a
    mission, of the obstacles and of the telemetry are lists of records: that they are
    present, and their elements well formed, is the caller's contract.
  \<^item> Objects that the source creates with \<^verbatim>\<open>new\<close> and shares by reference live in an
    explicit heap, a list of objects addressed by index; \<^verbatim>\<open>new\<close> appends. A
    \<^verbatim>\<open>Vector3\<close> is only ever reached through the one object that owns it, so it is
    kept by value inside that object.
  \<^item> \<^verbatim>\<open>scene.add(obj)\<close> is the method \<^verbatim>\<open>add\<close> of \<^verbatim>\<open>THREE.Object3D\<close>: it takes the object
    away from the parent it has, makes the scene its parent, and appends it to the
    children of the scene. So every \<^verbatim>\<open>Object3D\<close> on the heap carries its \<^verbatim>\<open>parent\<close>.
  \<^item> Isabelle refuses names that end in an underscore, so the private members
    \<^verbatim>\<open>setObjectPosition_\<close>, \<^verbatim>\<open>homePosGeometry_\<close>, ... appear without it.
  \<^item> Parameters and locals keep the source's names. Where such a name is also a field
    name (\<open>scene\<close>, \<open>scale\<close>, \<open>geometry\<close>, ...), the parameter is bound by a \<open>\<lambda>\<close>.
\<close>

subsection \<open>Input data\<close>

text \<open>
  Every position-like input has \<^verbatim>\<open>latitude\<close> and \<^verbatim>\<open>longitude\<close>; waypoints, moving
  obstacles and telemetry add \<^verbatim>\<open>altitude_msl\<close>. Record extension gives the one routine
  \<open>setObjectPosition\<close> all of them as arguments, as duck typing does in the source.
\<close>

record gps_position =
  latitude :: real
  longitude :: real

record aerial_position = gps_position +
  altitude_msl :: real

type_synonym waypoint = aerial_position

type_synonym user_telemetry = aerial_position

record stationary_obstacle = gps_position +
  cylinder_radius :: real
  cylinder_height :: real

record moving_obstacle = aerial_position +
  sphere_radius :: real

record mission =
  home_pos :: "gps_position option"
  air_drop_pos :: "gps_position option"
  emergent_last_known_pos :: "gps_position option"
  ir_primary_target_pos :: "gps_position option"
  ir_secondary_target_pos :: "gps_position option"
  off_axis_target_pos :: "gps_position option"
  sric_pos :: "gps_position option"
  search_grid_points :: "gps_position list"
  mission_waypoints :: "waypoint list"
  mission_waypoints_dist_max :: real

record obstacles =
  stationary_obstacles :: "stationary_obstacle list"
  moving_obstacles :: "moving_obstacle list"

subsection \<open>THREE.js objects and the heap\<close>

type_synonym ref = nat

datatype js_error = TypeError

record vector3 =
  x :: real
  y :: real
  z :: real

text \<open>\<^verbatim>\<open>new THREE.Vector3()\<close> is the zero vector.\<close>

definition Vector3 :: vector3 where
  "Vector3 = \<lparr>x = 0, y = 0, z = 0\<rparr>"

text \<open>
  The members of \<^verbatim>\<open>THREE.Object3D\<close> that the source reads or writes. A freshly
  constructed object sits at the origin, unrotated, with scale 1 and both shadow flags
  off (the library's defaults).
\<close>

record object3d =
  position :: vector3
  rotation :: vector3
  scale :: vector3
  castShadow :: bool
  receiveShadow :: bool

record mesh = object3d +
  geometry :: ref
  material :: ref

definition new_Mesh :: "ref \<Rightarrow> ref \<Rightarrow> mesh" where
  "new_Mesh g m =
     \<lparr>position = Vector3, rotation = Vector3, scale = \<lparr>x = 1, y = 1, z = 1\<rparr>,
      castShadow = False, receiveShadow = False, geometry = g, material = m\<rparr>"

text \<open>
  A hemisphere light is left as its constructor made it; only the arguments of the
  constructor are recorded. The directional light is an \<^verbatim>\<open>Object3D\<close> whose position
  and shadow members the constructor of the service sets.
\<close>

record hemisphere_light =
  skyColor :: nat
  groundColor :: nat
  hemisphere_intensity :: real

record directional_light = object3d +
  light_color :: nat
  intensity :: real
  shadowCameraFar :: real
  shadowCameraLeft :: real
  shadowCameraRight :: real
  shadowCameraTop :: real
  shadowCameraBottom :: real
  shadowMapWidth :: real
  shadowMapHeight :: real
  shadowDarkness :: real
  shadowCameraVisible :: bool

datatype wrapping = RepeatWrapping

datatype texture_filter = LinearFilter

record texture =
  url :: string
  wrapS :: wrapping
  wrapT :: wrapping
  magFilter :: texture_filter
  minFilter :: texture_filter
  repeat_uv :: "real \<times> real"

text \<open>
  The parameter object of a material constructor; \<open>None\<close> is a parameter the source
  does not pass. \<open>texture_map\<close> is the parameter \<^verbatim>\<open>map\<close>.
\<close>

record material_parameters =
  color :: nat
  specular :: "nat option"
  shininess :: "real option"
  texture_map :: "ref option"
  opacity :: "real option"
  transparent :: "bool option"

definition colored :: "nat \<Rightarrow> material_parameters" where
  "colored c =
     \<lparr>color = c, specular = None, shininess = None, texture_map = None,
      opacity = None, transparent = None\<rparr>"

text \<open>
  The objects on the heap. Scenes, meshes, lines and lights are \<^verbatim>\<open>Object3D\<close>s: the first
  argument of their constructor here is the member \<^verbatim>\<open>parent\<close>, a reference to the object
  they were last added to, \<open>None\<close> being \<^verbatim>\<open>undefined\<close>. A scene has the list of its
  \<^verbatim>\<open>children\<close> as well; the service adds children to scenes only, so the (empty) lists
  of children of the other objects are left out. A line refers to its geometry and its
  material.
\<close>

datatype obj =
    Scene "ref option" (children: "ref list")
  | Mesh "ref option" mesh
  | Line "ref option" ref ref
  | Geometry (vertices: "vector3 list")
  | PlaneBufferGeometry real real
  | SphereGeometry real nat nat
  | CylinderGeometry real real real nat
  | MeshPhongMaterial material_parameters
  | LineDashedMaterial material_parameters
  | Texture texture
  | HemisphereLight "ref option" hemisphere_light
  | DirectionalLight "ref option" directional_light

fun is_object3d :: "obj \<Rightarrow> bool" where
  "is_object3d (Scene p cs) = True"
| "is_object3d (Mesh p m) = True"
| "is_object3d (Line p g mat) = True"
| "is_object3d (HemisphereLight p l) = True"
| "is_object3d (DirectionalLight p l) = True"
| "is_object3d v = False"

fun is_scene :: "obj \<Rightarrow> bool" where
  "is_scene (Scene p cs) = True"
| "is_scene v = False"

text \<open>Reading and writing the member \<^verbatim>\<open>parent\<close>; an object that is no \<^verbatim>\<open>Object3D\<close> has none.\<close>

fun parent_of :: "obj \<Rightarrow> ref option" where
  "parent_of (Scene p cs) = p"
| "parent_of (Mesh p m) = p"
| "parent_of (Line p g mat) = p"
| "parent_of (HemisphereLight p l) = p"
| "parent_of (DirectionalLight p l) = p"
| "parent_of v = None"

fun with_parent :: "ref option \<Rightarrow> obj \<Rightarrow> obj" where
  "with_parent p (Scene _ cs) = Scene p cs"
| "with_parent p (Mesh _ m) = Mesh p m"
| "with_parent p (Line _ g mat) = Line p g mat"
| "with_parent p (HemisphereLight _ l) = HemisphereLight p l"
| "with_parent p (DirectionalLight _ l) = DirectionalLight p l"
| "with_parent p v = v"

type_synonym heap = "obj list"

definition alloc :: "obj \<Rightarrow> heap \<Rightarrow> ref \<times> heap" where
  "alloc v h = (length h, h @ [v])"

definition deref :: "heap \<Rightarrow> ref \<Rightarrow> obj option" where
  "deref h r = (if r < length h then Some (h ! r) else None)"

subsection \<open>Statements that may throw\<close>

text \<open>
  A statement takes the heap and returns its result, or the error it threw, together
  with the heap as it left it. \<open>and_then\<close> is the semicolon: an error skips the rest.
\<close>

type_synonym 'a js = "heap \<Rightarrow> (js_error + 'a) \<times> heap"

definition ret :: "'a \<Rightarrow> 'a js" where
  "ret v = (\<lambda>h. (Inr v, h))"

definition throw :: "js_error \<Rightarrow> 'a js" where
  "throw e = (\<lambda>h. (Inl e, h))"

definition lift :: "js_error + 'a \<Rightarrow> 'a js" where
  "lift r = (\<lambda>h. (r, h))"

definition and_then :: "'a js \<Rightarrow> ('a \<Rightarrow> 'b js) \<Rightarrow> 'b js" where
  "and_then m f = (\<lambda>h. case m h of (Inl e, h') \<Rightarrow> (Inl e, h') | (Inr v, h') \<Rightarrow> f v h')"

text \<open>\<^verbatim>\<open>for (var i = 0; i < xs.length; i++) { body(xs[i]) }\<close>\<close>

fun for_each :: "('a \<Rightarrow> 'b js) \<Rightarrow> 'a list \<Rightarrow> unit js" where
  "for_each body [] = ret ()"
| "for_each body (a # rest) = and_then (body a) (\<lambda>_. for_each body rest)"

definition new :: "obj \<Rightarrow> ref js" where
  "new v = (\<lambda>h. case alloc v h of (r, h') \<Rightarrow> (Inr r, h'))"

definition mesh_at :: "ref \<Rightarrow> mesh js" where
  "mesh_at obj = (\<lambda>h. case deref h obj of Some (Mesh p m) \<Rightarrow> (Inr m, h) | _ \<Rightarrow> (Inl TypeError, h))"

text \<open>Assignments to members of the mesh \<open>obj\<close>.\<close>

definition modify_mesh :: "ref \<Rightarrow> (mesh \<Rightarrow> mesh) \<Rightarrow> unit js" where
  "modify_mesh obj f =
     (\<lambda>h. case deref h obj of
            Some (Mesh p m) \<Rightarrow> (Inr (), h[obj := Mesh p (f m)])
          | _ \<Rightarrow> (Inl TypeError, h))"

text \<open>
  The assignment \<^verbatim>\<open>obj.parent = p\<close>, the children of an object, and the assignment of
  a new list of children to a scene.
\<close>

definition set_parent :: "ref \<Rightarrow> ref option \<Rightarrow> heap \<Rightarrow> heap" where
  "set_parent obj p h = (case deref h obj of Some v \<Rightarrow> h[obj := with_parent p v] | None \<Rightarrow> h)"

definition children_of :: "heap \<Rightarrow> ref \<Rightarrow> ref list" where
  "children_of h r = (case deref h r of Some (Scene p cs) \<Rightarrow> cs | _ \<Rightarrow> [])"

definition set_children :: "ref \<Rightarrow> ref list \<Rightarrow> heap \<Rightarrow> heap" where
  "set_children r cs h = (case deref h r of Some (Scene p _) \<Rightarrow> h[r := Scene p cs] | _ \<Rightarrow> h)"

text \<open>
  \<^verbatim>\<open>p.remove(obj)\<close>, the method \<^verbatim>\<open>remove\<close> of \<^verbatim>\<open>THREE.Object3D\<close>: if the object is among the
  children of \<open>p\<close>, its parent becomes \<^verbatim>\<open>undefined\<close> and it is spliced out of the
  children (at its first index); otherwise nothing happens.
\<close>

definition Object3D_remove :: "ref \<Rightarrow> ref \<Rightarrow> heap \<Rightarrow> heap" where
  "Object3D_remove p obj h =
     (if obj \<in> set (children_of h p)
      then set_children p (remove1 obj (children_of h p)) (set_parent obj None h)
      else h)"

text \<open>
  \<^verbatim>\<open>scene.add(obj)\<close>, the method \<^verbatim>\<open>add\<close> of \<^verbatim>\<open>THREE.Object3D\<close>. An object that is the
  scene itself, or no \<^verbatim>\<open>Object3D\<close>, is refused with a message on the console and
  nothing changes. Otherwise the object is removed from its parent, if it has one; its
  parent becomes the scene; and it becomes the last child of the scene. Calling
  \<^verbatim>\<open>add\<close> on something that is no scene is a \<open>TypeError\<close>.
\<close>

definition Object3D_add :: "ref \<Rightarrow> ref \<Rightarrow> unit js" where
  "Object3D_add = (\<lambda>scene obj h.
     case deref h scene of
       Some (Scene _ _) \<Rightarrow>
         (case deref h obj of
            Some v \<Rightarrow>
              if obj \<noteq> scene \<and> is_object3d v then
                let h1 = (case parent_of v of
                            Some p \<Rightarrow> Object3D_remove p obj h
                          | None \<Rightarrow> h);
                    h2 = set_parent obj (Some scene) h1
                in (Inr (), set_children scene (children_of h2 scene @ [obj]) h2)
              else (Inr (), h)
          | None \<Rightarrow> (Inr (), h))
     | _ \<Rightarrow> (Inl TypeError, h))"

text \<open>\<^verbatim>\<open>geometry.vertices.push(a, b)\<close>\<close>

definition vertices_push :: "ref \<Rightarrow> vector3 list \<Rightarrow> unit js" where
  "vertices_push g vs =
     (\<lambda>h. case deref h g of
            Some (Geometry ws) \<Rightarrow> (Inr (), h[g := Geometry (ws @ vs)])
          | _ \<Rightarrow> (Inl TypeError, h))"

subsection \<open>The service object\<close>

text \<open>
  The distance service is injected; the scene builder calls its \<^verbatim>\<open>haversine\<close> method
  with two latitude/longitude pairs.
\<close>

record distance_service =
  haversine :: "real \<Rightarrow> real \<Rightarrow> real \<Rightarrow> real \<Rightarrow> real"

text \<open>
  The fields of \<^verbatim>\<open>this\<close>. The root scope is the \<open>broadcasts\<close> log of the world below;
  the units service is stored by the constructor and never used.
\<close>

record mission_scene =
  distance :: distance_service
  scene :: "ref option"
  skyLight :: ref
  sunLight :: ref
  groundTexture :: ref
  groundMaterial :: ref
  groundGeometry :: ref
  ground :: ref
  missionComponentRadius :: real
  missionComponentGeometry :: ref
  missionComponentMaterial :: ref
  homePosGeometry :: ref
  homePosMaterial :: ref
  searchGridPtGeometry :: ref
  searchGridPtMaterial :: ref
  searchGridPtRadius :: real
  searchGridPtLineMaterial :: ref
  missionWaypointGeometry :: ref
  missionWaypointMaterial :: ref
  missionWaypointLineMaterial :: ref
  stationaryObstacleGeometry :: ref
  stationaryObstacleMaterial :: ref
  movingObstacleGeometry :: ref
  movingObstacleMaterial :: ref
  telemetryGeometry :: ref
  telemetryRadius :: real
  telemetryMaterial :: ref

text \<open>
  The constructor (lines 20--109), with every object in the state the constructor leaves
  it in. Sixteen objects are created; the other geometry and material fields are second
  names for one of them. The ground and the lights are in no scene yet: they have no
  parent.
\<close>

definition MissionScene :: "distance_service \<Rightarrow> heap \<Rightarrow> mission_scene \<times> heap" where
  "MissionScene Distance h0 =
    (let (skyLight, h1) = alloc (HemisphereLight None
            \<lparr>skyColor = 0xffffff, groundColor = 0xffffff, hemisphere_intensity = 0.4\<rparr>) h0;
         (sunLight, h2) = alloc (DirectionalLight None
            \<lparr>position = \<lparr>x = 0, y = 0, z = 1000\<rparr>, rotation = Vector3,
             scale = \<lparr>x = 1, y = 1, z = 1\<rparr>, castShadow = True, receiveShadow = False,
             light_color = 0xffffff, intensity = 0.6,
             shadowCameraFar = 10000, shadowCameraLeft = - 5000, shadowCameraRight = 5000,
             shadowCameraTop = 5000, shadowCameraBottom = - 5000,
             shadowMapWidth = 10000, shadowMapHeight = 10000, shadowDarkness = 0.5,
             shadowCameraVisible = True\<rparr>) h1;
         (groundTexture, h3) = alloc (Texture
            \<lparr>url = ''/static/auvsi_suas/components/mission-scene-service/img/ground.jpg'',
             wrapS = RepeatWrapping, wrapT = RepeatWrapping,
             magFilter = LinearFilter, minFilter = LinearFilter,
             repeat_uv = (1000, 1000)\<rparr>) h2;
         (groundMaterial, h4) = alloc (MeshPhongMaterial
            \<lparr>color = 0x526f35, specular = Some 0xffffff, shininess = Some 0,
             texture_map = Some groundTexture, opacity = None, transparent = None\<rparr>) h3;
         (groundGeometry, h5) = alloc (PlaneBufferGeometry 1 1) h4;
         (ground, h6) = alloc (Mesh None ((new_Mesh groundGeometry groundMaterial)
            \<lparr>scale := \<lparr>x = 100000, y = 100000, z = 100000\<rparr>, receiveShadow := True\<rparr>)) h5;
         (missionComponentGeometry, h7) = alloc (SphereGeometry 1 32 32) h6;
         (missionComponentMaterial, h8) = alloc (MeshPhongMaterial (colored 0xffffff)) h7;
         (homePosMaterial, h9) = alloc (MeshPhongMaterial (colored 0x00ff00)) h8;
         (searchGridPtMaterial, h10) = alloc (MeshPhongMaterial (colored 0x00ffff)) h9;
         (searchGridPtLineMaterial, h11) = alloc (LineDashedMaterial (colored 0x00ffff)) h10;
         (missionWaypointMaterial, h12) = alloc (MeshPhongMaterial
            ((colored 0x0000ff)\<lparr>opacity := Some 0.7, transparent := Some True\<rparr>)) h11;
         (missionWaypointLineMaterial, h13) = alloc (LineDashedMaterial (colored 0x0000ff)) h12;
         (stationaryObstacleGeometry, h14) = alloc (CylinderGeometry 1 1 1 32) h13;
         (stationaryObstacleMaterial, h15) = alloc (MeshPhongMaterial
            ((colored 0xff0000)\<lparr>opacity := Some 0.7, transparent := Some True\<rparr>)) h14;
         (telemetryMaterial, h16) = alloc (MeshPhongMaterial (colored 0xffff00)) h15
     in (\<lparr>distance = Distance,
          scene = None,
          skyLight = skyLight,
          sunLight = sunLight,
          groundTexture = groundTexture,
          groundMaterial = groundMaterial,
          groundGeometry = groundGeometry,
          ground = ground,
          missionComponentRadius = 20,
          missionComponentGeometry = missionComponentGeometry,
          missionComponentMaterial = missionComponentMaterial,
          homePosGeometry = missionComponentGeometry,
          homePosMaterial = homePosMaterial,
          searchGridPtGeometry = missionComponentGeometry,
          searchGridPtMaterial = searchGridPtMaterial,
          searchGridPtRadius = 20,
          searchGridPtLineMaterial = searchGridPtLineMaterial,
          missionWaypointGeometry = missionComponentGeometry,
          missionWaypointMaterial = missionWaypointMaterial,
          missionWaypointLineMaterial = missionWaypointLineMaterial,
          stationaryObstacleGeometry = stationaryObstacleGeometry,
          stationaryObstacleMaterial = stationaryObstacleMaterial,
          movingObstacleGeometry = missionComponentGeometry,
          movingObstacleMaterial = stationaryObstacleMaterial,
          telemetryGeometry = missionComponentGeometry,
          telemetryRadius = 20,
          telemetryMaterial = telemetryMaterial\<rparr>, h16))"

subsection \<open>Coordinate conversion and object creation\<close>

text \<open>
  \<^verbatim>\<open>setObjectPosition_(pos, alt, refPos, objPos)\<close> (lines 285--293). The arguments of the
  first \<^verbatim>\<open>haversine\<close> call are evaluated left to right, so \<^verbatim>\<open>refPos\<close> is read before
  \<^verbatim>\<open>pos\<close>; either being absent throws. The result is \<^verbatim>\<open>objPos\<close> after the three
  assignments.
\<close>

definition setObjectPosition ::
  "mission_scene \<Rightarrow> ('a gps_position_scheme) option \<Rightarrow> real \<Rightarrow>
   ('b gps_position_scheme) option \<Rightarrow> vector3 \<Rightarrow> js_error + vector3" where
  "setObjectPosition this pos alt refPos objPos =
    (case refPos of
       None \<Rightarrow> Inl TypeError
     | Some refPos \<Rightarrow>
      (case pos of
         None \<Rightarrow> Inl TypeError
       | Some pos \<Rightarrow>
          let distX = haversine (distance this)
                        (latitude refPos) (longitude pos) (latitude refPos) (longitude refPos);
              distY = haversine (distance this)
                        (latitude pos) (longitude refPos) (latitude refPos) (longitude refPos)
          in Inr (objPos\<lparr>x := sgn (longitude pos - longitude refPos) * distX,
                          y := sgn (latitude pos - latitude refPos) * distY,
                          z := alt\<rparr>)))"

text \<open>\<^verbatim>\<open>createObject_(geometry, material, pos, alt, refPos, scale, scene)\<close> (lines 307--316).\<close>

definition createObject ::
  "mission_scene \<Rightarrow> ref \<Rightarrow> ref \<Rightarrow> ('a gps_position_scheme) option \<Rightarrow> real \<Rightarrow>
   ('b gps_position_scheme) option \<Rightarrow> real \<Rightarrow> ref \<Rightarrow> ref js" where
  "createObject this = (\<lambda>geometry material pos alt refPos scale scene.
     and_then (new (Mesh None (new_Mesh geometry material))) (\<lambda>obj.
     and_then (mesh_at obj) (\<lambda>m.
     and_then (lift (setObjectPosition this pos alt refPos (position m))) (\<lambda>objPos.
     and_then (modify_mesh obj (\<lambda>m. m\<lparr>position := objPos\<rparr>)) (\<lambda>_.
     and_then (modify_mesh obj (\<lambda>m. m\<lparr>scale := \<lparr>x = scale, y = scale, z = scale\<rparr>\<rparr>)) (\<lambda>_.
     and_then (modify_mesh obj (\<lambda>m. m\<lparr>castShadow := True\<rparr>)) (\<lambda>_.
     and_then (modify_mesh obj (\<lambda>m. m\<lparr>receiveShadow := True\<rparr>)) (\<lambda>_.
     and_then (Object3D_add scene obj) (\<lambda>_.
     ret obj)))))))))"

subsection \<open>Adding the elements\<close>

text \<open>\<^verbatim>\<open>addMissionSceneElements_(mission, scene)\<close> (lines 148--225).\<close>

definition addMissionSceneElements :: "mission_scene \<Rightarrow> mission \<Rightarrow> ref \<Rightarrow> unit js" where
  "addMissionSceneElements this mission = (\<lambda>scene.
     and_then (createObject this (homePosGeometry this) (homePosMaterial this)
         (home_pos mission) (missionComponentRadius this) (home_pos mission)
         (missionComponentRadius this) scene) (\<lambda>homePos.
     let missionComponents =
           [air_drop_pos mission, emergent_last_known_pos mission,
            ir_primary_target_pos mission, ir_secondary_target_pos mission,
            off_axis_target_pos mission, sric_pos mission] in
     and_then (for_each (\<lambda>component.
         createObject this (missionComponentGeometry this) (missionComponentMaterial this)
           component (missionComponentRadius this) (home_pos mission)
           (missionComponentRadius this) scene)
       missionComponents) (\<lambda>_.
     and_then (for_each (\<lambda>searchPt.
         createObject this (searchGridPtGeometry this) (searchGridPtMaterial this)
           (Some searchPt) (searchGridPtRadius this) (home_pos mission)
           (searchGridPtRadius this) scene)
       (search_grid_points mission)) (\<lambda>_.
     and_then (new (Geometry [])) (\<lambda>searchGridPtLineGeometry.
     and_then (for_each (\<lambda>i.
         let j = (i + 1) mod length (search_grid_points mission);
             start = search_grid_points mission ! i;
             end = search_grid_points mission ! j in
         and_then (lift (setObjectPosition this (Some start) (searchGridPtRadius this)
             (home_pos mission) Vector3)) (\<lambda>startPt.
         and_then (lift (setObjectPosition this (Some end) (searchGridPtRadius this)
             (home_pos mission) Vector3)) (\<lambda>endPt.
         vertices_push searchGridPtLineGeometry [startPt, endPt])))
       [0..<length (search_grid_points mission)]) (\<lambda>_.
     and_then (new (Line None searchGridPtLineGeometry (searchGridPtLineMaterial this)))
       (\<lambda>searchGridPtLine.
     and_then (Object3D_add scene searchGridPtLine) (\<lambda>_.
     and_then (for_each (\<lambda>waypoint.
         createObject this (missionWaypointGeometry this) (missionWaypointMaterial this)
           (Some waypoint) (altitude_msl waypoint) (home_pos mission)
           (mission_waypoints_dist_max mission) scene)
       (mission_waypoints mission)) (\<lambda>_.
     and_then (new (Geometry [])) (\<lambda>missionWaypointLineGeometry.
     and_then (for_each (\<lambda>i.
         let start = mission_waypoints mission ! i;
             end = mission_waypoints mission ! (i + 1) in
         and_then (lift (setObjectPosition this (Some start) (altitude_msl start)
             (home_pos mission) Vector3)) (\<lambda>startPt.
         and_then (lift (setObjectPosition this (Some end) (altitude_msl end)
             (home_pos mission) Vector3)) (\<lambda>endPt.
         vertices_push missionWaypointLineGeometry [startPt, endPt])))
       [0..<length (mission_waypoints mission) - 1]) (\<lambda>_.
     and_then (new (Line None missionWaypointLineGeometry (missionWaypointLineMaterial this)))
       (\<lambda>missionWaypointLine.
     Object3D_add scene missionWaypointLine))))))))))))"

text \<open>
  \<^verbatim>\<open>addObstacleSceneElements_(mission, obstacles, refPos, scene)\<close> (lines 235--256). The
  loop condition reads \<^verbatim>\<open>obstacles.stationary_obstacles\<close> first. The parameter
  \<^verbatim>\<open>refPos\<close> is not used: the source passes \<^verbatim>\<open>mission.home_pos\<close> on.
\<close>

definition addObstacleSceneElements ::
  "mission_scene \<Rightarrow> mission \<Rightarrow> obstacles option \<Rightarrow> gps_position option \<Rightarrow> ref \<Rightarrow> unit js" where
  "addObstacleSceneElements this mission obstacles refPos = (\<lambda>scene.
     case obstacles of
       None \<Rightarrow> throw TypeError
     | Some obstacles \<Rightarrow>
         and_then (for_each (\<lambda>obstacle.
             and_then (createObject this (stationaryObstacleGeometry this)
                 (stationaryObstacleMaterial this) (Some obstacle)
                 (cylinder_height obstacle / 2) (home_pos mission) 1 scene) (\<lambda>obstacleObj.
             and_then (modify_mesh obstacleObj (\<lambda>m. m\<lparr>scale :=
                 \<lparr>x = cylinder_radius obstacle, y = cylinder_height obstacle,
                  z = cylinder_radius obstacle\<rparr>\<rparr>)) (\<lambda>_.
             modify_mesh obstacleObj (\<lambda>m. m\<lparr>rotation := \<lparr>x = pi / 2, y = 0, z = 0\<rparr>\<rparr>))))
           (stationary_obstacles obstacles)) (\<lambda>_.
         for_each (\<lambda>obstacle.
             createObject this (movingObstacleGeometry this) (movingObstacleMaterial this)
               (Some obstacle) (altitude_msl obstacle) (home_pos mission)
               (sphere_radius obstacle) scene)
           (moving_obstacles obstacles)))"

text \<open>
  \<^verbatim>\<open>addTelemetrySceneElements_(mission, telemetry, refPos, scene)\<close> (lines 266--275);
  \<^verbatim>\<open>telemetry.length\<close> is read first.
\<close>

definition addTelemetrySceneElements ::
  "mission_scene \<Rightarrow> mission \<Rightarrow> user_telemetry list option \<Rightarrow> gps_position option \<Rightarrow>
   ref \<Rightarrow> unit js" where
  "addTelemetrySceneElements this mission telemetry refPos = (\<lambda>scene.
     case telemetry of
       None \<Rightarrow> throw TypeError
     | Some telemetry \<Rightarrow>
         for_each (\<lambda>userTelem.
             createObject this (telemetryGeometry this) (telemetryMaterial this)
               (Some userTelem) (altitude_msl userTelem) (home_pos mission)
               (telemetryRadius this) scene)
           telemetry)"

subsection \<open>Rebuilding the scene\<close>

text \<open>
  The world: the heap, the service object, and what the root scope has broadcast so
  far. \<^verbatim>\<open>$broadcast\<close> delivers an event to its listeners at once, and the listeners of
  this event read the service's \<open>scene\<close> field; so the log keeps, with each event name,
  the value that field had when the event was delivered.
\<close>

record event =
  event_name :: string
  observed_scene :: "ref option"

record world =
  heap :: heap
  service :: mission_scene
  broadcasts :: "event list"

definition broadcast :: "string \<Rightarrow> world \<Rightarrow> world" where
  "broadcast name w =
     w\<lparr>broadcasts := broadcasts w @
          [\<lparr>event_name = name, observed_scene = scene (service w)\<rparr>]\<rparr>"

text \<open>
  Lines 119--135 of \<^verbatim>\<open>rebuildScene\<close>: everything up to the two final statements. It
  returns the local variable \<^verbatim>\<open>scene\<close>.
\<close>

definition build_scene ::
  "mission_scene \<Rightarrow> mission option \<Rightarrow> obstacles option \<Rightarrow> user_telemetry list option \<Rightarrow>
   ref js" where
  "build_scene this mission obstacles telemetry =
     and_then (new (Scene None [])) (\<lambda>scene.
     and_then (Object3D_add scene (ground this)) (\<lambda>_.
     and_then (Object3D_add scene (skyLight this)) (\<lambda>_.
     and_then (Object3D_add scene (sunLight this)) (\<lambda>_.
     and_then
       (case mission of
          None \<Rightarrow> ret ()
        | Some mission \<Rightarrow>
            if home_pos mission \<noteq> None then
              and_then (addMissionSceneElements this mission scene) (\<lambda>_.
              and_then (addObstacleSceneElements this mission obstacles
                  (home_pos mission) scene) (\<lambda>_.
              addTelemetrySceneElements this mission telemetry (home_pos mission) scene))
            else ret ()) (\<lambda>_.
     ret scene)))))"

text \<open>
  \<^verbatim>\<open>rebuildScene(mission, obstacles, telemetry)\<close> (lines 117--140). An error thrown while
  the scene is built leaves the function before the assignment and the broadcast.
\<close>

definition rebuildScene ::
  "mission option \<Rightarrow> obstacles option \<Rightarrow> user_telemetry list option \<Rightarrow> world \<Rightarrow>
   (js_error + unit) \<times> world" where
  "rebuildScene mission obstacles telemetry w =
     (case build_scene (service w) mission obstacles telemetry (heap w) of
        (Inl e, h') \<Rightarrow> (Inl e, w\<lparr>heap := h'\<rparr>)
      | (Inr built, h') \<Rightarrow>
          (Inr (), broadcast ''MissionScene.sceneUpdated''
                     (w\<lparr>heap := h', service := (service w)\<lparr>scene := Some built\<rparr>\<rparr>)))"

subsection \<open>The distance service\<close>

text \<open>
  Modelled from the spec: the \<^verbatim>\<open>haversine\<close> method of the Distance service, whose file
  is not among the sources. The spec calls it a great-circle distance function that
  takes two latitude/longitude pairs and returns the distance, and names the haversine
  formula. Angles are in degrees, converted to radians first; the radius of the sphere,
  in the unit of the result, is a parameter. The scene builder itself takes any
  distance service: this one only serves the examples.
\<close>

definition degToRad :: "real \<Rightarrow> real" where
  "degToRad d = d * pi / 180"

text \<open>
  Modelled from the spec: the haversine formula for the great-circle distance between
  \<open>(lat1, lon1)\<close> and \<open>(lat2, lon2)\<close>, over the reals.
\<close>

definition great_circle_distance :: "real \<Rightarrow> real \<Rightarrow> real \<Rightarrow> real \<Rightarrow> real \<Rightarrow> real" where
  "great_circle_distance radius lat1 lon1 lat2 lon2 =
     (let dLat = degToRad lat2 - degToRad lat1;
          dLon = degToRad lon2 - degToRad lon1;
          a = (sin (dLat / 2))\<^sup>2 + cos (degToRad lat1) * cos (degToRad lat2) * (sin (dLon / 2))\<^sup>2
      in radius * (2 * arcsin (sqrt a)))"

text \<open>
  Modelled from the spec: a Distance service, as the constructor receives it, for a
  sphere of the given radius.
\<close>

definition spherical_Distance :: "real \<Rightarrow> distance_service" where
  "spherical_Distance radius = \<lparr>haversine = great_circle_distance radius\<rparr>"

subsection \<open>Reading a scene\<close>

text \<open>
  What a renderer finds when it walks the children of a scene: the objects the service
  keeps and adds to every scene (the ground and the two lights), the markers, which are
  the meshes made for this scene, and the lines, each with the vertices of its geometry.
\<close>

datatype element = Shared ref | Marker mesh | Polyline "vector3 list" ref

definition element_at :: "mission_scene \<Rightarrow> heap \<Rightarrow> ref \<Rightarrow> element" where
  "element_at this h r =
     (case deref h r of
        Some (Mesh p m) \<Rightarrow> if r = ground this then Shared r else Marker m
      | Some (Line p g mat) \<Rightarrow>
          (case deref h g of Some (Geometry vs) \<Rightarrow> Polyline vs mat | _ \<Rightarrow> Shared r)
      | _ \<Rightarrow> Shared r)"

definition scene_elements :: "mission_scene \<Rightarrow> heap \<Rightarrow> ref \<Rightarrow> element list" where
  "scene_elements this h s =
     (case deref h s of Some (Scene p cs) \<Rightarrow> map (element_at this h) cs | _ \<Rightarrow> [])"

definition markers :: "element list \<Rightarrow> mesh list" where
  "markers es = concat (map (\<lambda>e. case e of Marker m \<Rightarrow> [m] | _ \<Rightarrow> []) es)"

definition polylines :: "element list \<Rightarrow> (vector3 list \<times> ref) list" where
  "polylines es = concat (map (\<lambda>e. case e of Polyline vs mat \<Rightarrow> [(vs, mat)] | _ \<Rightarrow> []) es)"

definition uniform :: "vector3 \<Rightarrow> bool" where
  "uniform v \<longleftrightarrow> x v = y v \<and> y v = z v"

text \<open>The objects the constructor made and the fields that hold them.\<close>

definition resources :: "mission_scene \<Rightarrow> ref list" where
  "resources this =
     [skyLight this, sunLight this, groundTexture this, groundMaterial this,
      groundGeometry this, ground this, missionComponentGeometry this,
      missionComponentMaterial this, homePosGeometry this, homePosMaterial this,
      searchGridPtGeometry this, searchGridPtMaterial this, searchGridPtLineMaterial this,
      missionWaypointGeometry this, missionWaypointMaterial this,
      missionWaypointLineMaterial this, stationaryObstacleGeometry this,
      stationaryObstacleMaterial this, movingObstacleGeometry this,
      movingObstacleMaterial this, telemetryGeometry this, telemetryMaterial this]"

definition is_mesh :: "obj option \<Rightarrow> bool" where
  "is_mesh v = (case v of Some (Mesh _ _) \<Rightarrow> True | _ \<Rightarrow> False)"

definition is_hemisphere_light :: "obj option \<Rightarrow> bool" where
  "is_hemisphere_light v = (case v of Some (HemisphereLight _ _) \<Rightarrow> True | _ \<Rightarrow> False)"

definition is_directional_light :: "obj option \<Rightarrow> bool" where
  "is_directional_light v = (case v of Some (DirectionalLight _ _) \<Rightarrow> True | _ \<Rightarrow> False)"

text \<open>
  A world in which the service has been constructed: its resources are on the heap,
  and the ground and the lights are what their names say.
\<close>

definition constructed :: "world \<Rightarrow> bool" where
  "constructed w \<longleftrightarrow>
     list_all (\<lambda>r. r < length (heap w)) (resources (service w)) \<and>
     is_mesh (deref (heap w) (ground (service w))) \<and>
     is_hemisphere_light (deref (heap w) (skyLight (service w))) \<and>
     is_directional_light (deref (heap w) (sunLight (service w)))"

text \<open>The world right after \<^verbatim>\<open>new MissionScene($rootScope, Distance, Units)\<close>.\<close>

definition initial_world :: "distance_service \<Rightarrow> world" where
  "initial_world Distance =
     (case MissionScene Distance [] of
        (this, h) \<Rightarrow> \<lparr>heap = h, service = this, broadcasts = []\<rparr>)"

text \<open>The objects a call of \<open>rebuildScene\<close> may create.\<close>

definition per_call :: "obj \<Rightarrow> bool" where
  "per_call v = (case v of Scene _ _ \<Rightarrow> True | Mesh _ _ \<Rightarrow> True | Line _ _ _ \<Rightarrow> True
                 | Geometry _ \<Rightarrow> True | _ \<Rightarrow> False)"

subsection \<open>The scene in the words of the specification\<close>

text \<open>
  The local coordinates of a position: each axis is the distance along that axis alone,
  signed by the difference of the coordinates; the altitude is the third coordinate.
\<close>

definition local_position ::
  "mission_scene \<Rightarrow> 'a gps_position_scheme \<Rightarrow> real \<Rightarrow> 'b gps_position_scheme \<Rightarrow> vector3" where
  "local_position this pos alt refPos =
     \<lparr>x = sgn (longitude pos - longitude refPos) *
            haversine (distance this)
              (latitude refPos) (longitude pos) (latitude refPos) (longitude refPos),
      y = sgn (latitude pos - latitude refPos) *
            haversine (distance this)
              (latitude pos) (longitude refPos) (latitude refPos) (longitude refPos),
      z = alt\<rparr>"

text \<open>A marker as the spec describes it: placed, uniformly scaled, with both shadow flags.\<close>

definition placed ::
  "mission_scene \<Rightarrow> ref \<Rightarrow> ref \<Rightarrow> 'a gps_position_scheme \<Rightarrow> real \<Rightarrow>
   'b gps_position_scheme \<Rightarrow> real \<Rightarrow> mesh" where
  "placed this g mat pos alt refPos s =
     \<lparr>position = local_position this pos alt refPos, rotation = Vector3,
      scale = \<lparr>x = s, y = s, z = s\<rparr>, castShadow = True, receiveShadow = True,
      geometry = g, material = mat\<rparr>"

definition mission_components :: "mission \<Rightarrow> gps_position option list" where
  "mission_components m =
     [air_drop_pos m, emergent_last_known_pos m, ir_primary_target_pos m,
      ir_secondary_target_pos m, off_axis_target_pos m, sric_pos m]"

text \<open>Search-grid points joined in a closed loop, waypoints in an open path.\<close>

definition closed_loop :: "vector3 list \<Rightarrow> vector3 list" where
  "closed_loop ps = concat (map (\<lambda>i. [ps ! i, ps ! ((i + 1) mod length ps)]) [0..<length ps])"

definition open_path :: "vector3 list \<Rightarrow> vector3 list" where
  "open_path ps = concat (map (\<lambda>i. [ps ! i, ps ! (i + 1)]) [0..<length ps - 1])"

definition mission_elements :: "mission_scene \<Rightarrow> mission \<Rightarrow> gps_position \<Rightarrow> element list" where
  "mission_elements this m home =
     Marker (placed this (homePosGeometry this) (homePosMaterial this) home
               (missionComponentRadius this) home (missionComponentRadius this)) #
     map (\<lambda>c. Marker (placed this (missionComponentGeometry this)
                 (missionComponentMaterial this) (the c) (missionComponentRadius this) home
                 (missionComponentRadius this)))
       (mission_components m) @
     map (\<lambda>p. Marker (placed this (searchGridPtGeometry this) (searchGridPtMaterial this) p
                 (searchGridPtRadius this) home (searchGridPtRadius this)))
       (search_grid_points m) @
     [Polyline
        (closed_loop (map (\<lambda>p. local_position this p (searchGridPtRadius this) home)
           (search_grid_points m)))
        (searchGridPtLineMaterial this)] @
     map (\<lambda>p. Marker (placed this (missionWaypointGeometry this)
                 (missionWaypointMaterial this) p (altitude_msl p) home
                 (mission_waypoints_dist_max m)))
       (mission_waypoints m) @
     [Polyline
        (open_path (map (\<lambda>p. local_position this p (altitude_msl p) home)
           (mission_waypoints m)))
        (missionWaypointLineMaterial this)]"

text \<open>
  A stationary obstacle is a marker whose scale is then set to the cylinder's radius
  and height, and which is turned upright.
\<close>

definition cylinder :: "mission_scene \<Rightarrow> stationary_obstacle \<Rightarrow> gps_position \<Rightarrow> mesh" where
  "cylinder this ob home =
     (placed this (stationaryObstacleGeometry this) (stationaryObstacleMaterial this) ob
        (cylinder_height ob / 2) home 1)
     \<lparr>rotation := \<lparr>x = pi / 2, y = 0, z = 0\<rparr>,
      scale := \<lparr>x = cylinder_radius ob, y = cylinder_height ob, z = cylinder_radius ob\<rparr>\<rparr>"

definition obstacle_elements ::
  "mission_scene \<Rightarrow> obstacles \<Rightarrow> gps_position \<Rightarrow> element list" where
  "obstacle_elements this obs home =
     map (\<lambda>ob. Marker (cylinder this ob home)) (stationary_obstacles obs) @
     map (\<lambda>ob. Marker (placed this (movingObstacleGeometry this) (movingObstacleMaterial this)
                  ob (altitude_msl ob) home (sphere_radius ob)))
       (moving_obstacles obs)"

definition telemetry_elements ::
  "mission_scene \<Rightarrow> user_telemetry list \<Rightarrow> gps_position \<Rightarrow> element list" where
  "telemetry_elements this tel home =
     map (\<lambda>t. Marker (placed this (telemetryGeometry this) (telemetryMaterial this) t
                 (altitude_msl t) home (telemetryRadius this)))
       tel"

text \<open>
  The inputs that get a marker, in the order the source creates the markers, each with
  the altitude the source passes to \<^verbatim>\<open>createObject_\<close>: the home position and the six
  mission components at the component radius, the search-grid points at the grid-point
  radius, the waypoints at their altitude, the stationary obstacles at half their height,
  the moving obstacles and the telemetry at their altitude. \<open>gps\<close> is the latitude and
  longitude of a position-like record.
\<close>

definition gps :: "'a gps_position_scheme \<Rightarrow> gps_position" where
  "gps p = \<lparr>latitude = latitude p, longitude = longitude p\<rparr>"

definition marker_inputs ::
  "mission_scene \<Rightarrow> mission \<Rightarrow> gps_position \<Rightarrow> obstacles \<Rightarrow> user_telemetry list \<Rightarrow>
   (gps_position \<times> real) list" where
  "marker_inputs this m home obs tel =
     (home, missionComponentRadius this) #
     map (\<lambda>c. (the c, missionComponentRadius this)) (mission_components m) @
     map (\<lambda>p. (p, searchGridPtRadius this)) (search_grid_points m) @
     map (\<lambda>p. (gps p, altitude_msl p)) (mission_waypoints m) @
     map (\<lambda>ob. (gps ob, cylinder_height ob / 2)) (stationary_obstacles obs) @
     map (\<lambda>ob. (gps ob, altitude_msl ob)) (moving_obstacles obs) @
     map (\<lambda>t. (gps t, altitude_msl t)) tel"

text \<open>
  The heap after a list of elements made for the scene \<open>s\<close> has been added to it: a
  marker is one new mesh, a line is a new geometry followed by the new line that refers
  to it, each with the scene as its parent, and the children of the scene grow by one
  reference per element. (The ground and the lights are not made for a scene; they add
  nothing here.)
\<close>

fun new_objects :: "ref \<Rightarrow> nat \<Rightarrow> element list \<Rightarrow> obj list" where
  "new_objects s n [] = []"
| "new_objects s n (Shared r # es) = new_objects s n es"
| "new_objects s n (Marker m # es) = Mesh (Some s) m # new_objects s (Suc n) es"
| "new_objects s n (Polyline vs mat # es) =
     Geometry vs # Line (Some s) n mat # new_objects s (Suc (Suc n)) es"

fun new_children :: "nat \<Rightarrow> element list \<Rightarrow> ref list" where
  "new_children n [] = []"
| "new_children n (Shared r # es) = new_children n es"
| "new_children n (Marker m # es) = n # new_children (Suc n) es"
| "new_children n (Polyline vs mat # es) = Suc n # new_children (Suc (Suc n)) es"

definition add_elements :: "ref \<Rightarrow> element list \<Rightarrow> heap \<Rightarrow> heap" where
  "add_elements s es h =
     h[s := Scene None (children (h ! s) @ new_children (length h) es)] @
     new_objects s (length h) es"

text \<open>The scene \<open>s\<close> is under construction: it is a scene, in no other object.\<close>

definition building :: "ref \<Rightarrow> heap \<Rightarrow> bool" where
  "building s h \<longleftrightarrow> s < length h \<and> (case h ! s of Scene None _ \<Rightarrow> True | _ \<Rightarrow> False)"

definition fresh_only :: "element list \<Rightarrow> bool" where
  "fresh_only es = list_all (\<lambda>e. case e of Shared _ \<Rightarrow> False | _ \<Rightarrow> True) es"

text \<open>
  The heap after lines 119--126 of \<^verbatim>\<open>rebuildScene\<close>: a new, empty scene, to which the
  ground and the two lights have been added. \<open>attach\<close> is the heap that
  \<^verbatim>\<open>scene.add(obj)\<close> leaves.
\<close>

definition attach :: "ref \<Rightarrow> ref \<Rightarrow> heap \<Rightarrow> heap" where
  "attach s r h = snd (Object3D_add s r h)"

definition staged :: "mission_scene \<Rightarrow> heap \<Rightarrow> heap" where
  "staged this h =
     attach (length h) (sunLight this)
       (attach (length h) (skyLight this)
          (attach (length h) (ground this) (h @ [Scene None []])))"

text \<open>
  What adding the objects \<open>rs\<close> to a new scene does to an object \<open>q\<close> that is none of
  them: each of \<open>rs\<close> whose parent is \<open>q\<close> is taken out of the children of \<open>q\<close>. Only a
  scene has children, so every other object stays as it is.
\<close>

fun without_child :: "ref \<Rightarrow> obj \<Rightarrow> obj" where
  "without_child r (Scene p cs) = Scene p (remove1 r cs)"
| "without_child r v = v"

definition released :: "heap \<Rightarrow> ref list \<Rightarrow> ref \<Rightarrow> obj" where
  "released h rs q =
     fold (\<lambda>r v. if parent_of (h ! r) = Some q then without_child r v else v) rs (h ! q)"

subsection \<open>What a statement does to the scene under construction\<close>

text \<open>
  Three behaviours of a statement run while the scene \<open>s\<close> is being built: it adds the
  elements \<open>es\<close> to the scene, it does so and returns \<open>v\<close>, or it throws, having
  added some elements and possibly created objects that were never added.
\<close>

definition adds :: "ref \<Rightarrow> 'a js \<Rightarrow> element list \<Rightarrow> bool" where
  "adds s m es \<longleftrightarrow> (\<forall>h. building s h \<longrightarrow> (\<exists>v. m h = (Inr v, add_elements s es h)))"

definition returns :: "ref \<Rightarrow> 'a js \<Rightarrow> element list \<Rightarrow> 'a \<Rightarrow> bool" where
  "returns s m es v \<longleftrightarrow> (\<forall>h. building s h \<longrightarrow> m h = (Inr v, add_elements s es h))"

definition throws :: "ref \<Rightarrow> 'a js \<Rightarrow> bool" where
  "throws s m \<longleftrightarrow>
     (\<forall>h. building s h \<longrightarrow>
        (\<exists>es junk. m h = (Inl TypeError, add_elements s es h @ junk) \<and> list_all per_call junk))"

text \<open>
  The inputs on which nothing is dereferenced that is absent: no mission, a mission
  without a home position, or a mission with a home position whose six component
  positions are present, together with obstacles and telemetry.
\<close>

definition complete_input ::
  "mission option \<Rightarrow> obstacles option \<Rightarrow> user_telemetry list option \<Rightarrow> bool" where
  "complete_input mission obstacles telemetry =
     (case mission of
        None \<Rightarrow> True
      | Some m \<Rightarrow>
         (case home_pos m of
            None \<Rightarrow> True
          | Some _ \<Rightarrow> list_all (\<lambda>c. c \<noteq> None) (mission_components m) \<and>
                      obstacles \<noteq> None \<and> telemetry \<noteq> None))"

text \<open>
  The elements of the scene of a complete call: those made for it, after the ground and
  the two lights.
\<close>

definition fresh_elements ::
  "mission_scene \<Rightarrow> mission option \<Rightarrow> obstacles option \<Rightarrow> user_telemetry list option \<Rightarrow>
   element list" where
  "fresh_elements this mission obstacles telemetry =
     (case mission of
        None \<Rightarrow> []
      | Some m \<Rightarrow>
         (case home_pos m of
            None \<Rightarrow> []
          | Some home \<Rightarrow>
              mission_elements this m home @
              obstacle_elements this (the obstacles) home @
              telemetry_elements this (the telemetry) home))"

definition expected_elements ::
  "mission_scene \<Rightarrow> mission option \<Rightarrow> obstacles option \<Rightarrow> user_telemetry list option \<Rightarrow>
   element list" where
  "expected_elements this mission obstacles telemetry =
     [Shared (ground this), Shared (skyLight this), Shared (sunLight this)] @
     fresh_elements this mission obstacles telemetry"

subsection \<open>Example data\<close>

text \<open>
  A freshly constructed service on a sphere of the mean radius of the Earth in feet, and
  a small mission: three search-grid points, three waypoints, one stationary and one
  moving obstacle, one telemetry report.
\<close>

definition demo_world :: world where
  "demo_world = initial_world (spherical_Distance 20902231)"

definition demo_home :: gps_position where
  "demo_home = \<lparr>latitude = 38, longitude = - 76\<rparr>"

definition demo_mission :: mission where
  "demo_mission =
     \<lparr>home_pos = Some demo_home,
      air_drop_pos = Some \<lparr>latitude = 38, longitude = - 77\<rparr>,
      emergent_last_known_pos = Some \<lparr>latitude = 39, longitude = - 76\<rparr>,
      ir_primary_target_pos = Some \<lparr>latitude = 37, longitude = - 76\<rparr>,
      ir_secondary_target_pos = Some \<lparr>latitude = 38, longitude = - 75\<rparr>,
      off_axis_target_pos = Some \<lparr>latitude = 39, longitude = - 75\<rparr>,
      sric_pos = Some \<lparr>latitude = 37, longitude = - 77\<rparr>,
      search_grid_points =
        [\<lparr>latitude = 38, longitude = - 76\<rparr>, \<lparr>latitude = 39, longitude = - 76\<rparr>,
         \<lparr>latitude = 39, longitude = - 75\<rparr>],
      mission_waypoints =
        [\<lparr>latitude = 38, longitude = - 76, altitude_msl = 100\<rparr>,
         \<lparr>latitude = 38, longitude = - 75, altitude_msl = 200\<rparr>,
         \<lparr>latitude = 37, longitude = - 75, altitude_msl = 300\<rparr>],
      mission_waypoints_dist_max = 100\<rparr>"

definition demo_obstacles :: obstacles where
  "demo_obstacles =
     \<lparr>stationary_obstacles =
        [\<lparr>latitude = 38, longitude = - 77, cylinder_radius = 1, cylinder_height = 2\<rparr>],
      moving_obstacles =
        [\<lparr>latitude = 37, longitude = - 76, altitude_msl = 150, sphere_radius = 5\<rparr>]\<rparr>"

definition demo_telemetry :: "user_telemetry list" where
  "demo_telemetry = [\<lparr>latitude = 38, longitude = - 76, altitude_msl = 120\<rparr>]"

text \<open>The world after the example has been built once.\<close>

definition demo_rebuilt :: world where
  "demo_rebuilt =
     snd (rebuildScene (Some demo_mission) (Some demo_obstacles) (Some demo_telemetry) demo_world)"

section \<open>Properties\<close>

subsection \<open>Statements on a scene under construction\<close>

lemma and_then_Inr: "m h = (Inr v, h') \<Longrightarrow> and_then m f h = f v h'"
  by (simp add: and_then_def)

lemma and_then_Inl: "m h = (Inl e, h') \<Longrightarrow> and_then m f h = (Inl e, h')"
  by (simp add: and_then_def)

lemma ret_apply: "ret v h = (Inr v, h)"
  by (simp add: ret_def)

lemma new_apply: "new v h = (Inr (length h), h @ [v])"
  by (simp add: new_def alloc_def)

lemma mesh_at_last: "n = length h \<Longrightarrow> mesh_at n (h @ [Mesh p m]) = (Inr m, h @ [Mesh p m])"
  by (simp add: mesh_at_def deref_def)

lemma modify_mesh_last:
  "n = length h \<Longrightarrow> modify_mesh n f (h @ [Mesh p m]) = (Inr (), h @ [Mesh p (f m)])"
  by (simp add: modify_mesh_def deref_def)

text \<open>Adding an object that has just been created, and has no parent yet.\<close>

lemma Object3D_add_fresh:
  assumes "s < length h" "h ! s = Scene p cs" "is_object3d v" "parent_of v = None"
  shows "Object3D_add s (length h + length pre) (h @ pre @ [v]) =
     (Inr (), h[s := Scene p (cs @ [length h + length pre])] @ pre @ [with_parent (Some s) v])"
  using assms
  by (simp add: Object3D_add_def deref_def nth_append list_update_append set_parent_def
      set_children_def children_of_def Let_def)


lemma setObjectPosition_Some:
  "setObjectPosition this (Some p) alt (Some r) Vector3 = Inr (local_position this p alt r)"
  by (simp add: setObjectPosition_def local_position_def Vector3_def)

lemma building_add_elements: "building s h \<Longrightarrow> building s (add_elements s es h)"
  by (auto simp: building_def add_elements_def nth_append split: obj.splits option.splits)

lemma new_objects_append:
  "new_objects s n (a @ b) =
     new_objects s n a @ new_objects s (n + length (new_objects s n a)) b"
  by (induction s n a rule: new_objects.induct) simp_all

lemma new_children_append:
  "new_children n (a @ b) = new_children n a @ new_children (n + length (new_objects s n a)) b"
  by (induction n a rule: new_children.induct) simp_all

lemma add_elements_twice:
  "building s h \<Longrightarrow> add_elements s b (add_elements s a h) = add_elements s (a @ b) h"
  by (auto simp: building_def add_elements_def nth_append new_objects_append
        new_children_append [where s = s] list_update_append split: obj.splits option.splits)

lemma add_elements_Nil: "building s h \<Longrightarrow> add_elements s [] h = h"
  by (auto simp: building_def add_elements_def split: obj.splits option.splits
        intro: list_update_same_conv [THEN iffD2])

lemma createObject_Some:
  assumes "building s h"
  shows "createObject this g mat (Some p) alt (Some r) sc s h =
           (Inr (length h), add_elements s [Marker (placed this g mat p alt r sc)] h)"
proof -
  from assms obtain cs where s: "s < length h" "h ! s = Scene None cs"
    by (auto simp: building_def split: obj.splits option.splits)
  have add: "Object3D_add s (length h) (h @ [Mesh None m]) =
      (Inr (), h[s := Scene None (cs @ [length h])] @ [Mesh (Some s) m])" for m
    using Object3D_add_fresh [OF s, of "Mesh None m" "[]"] by simp
  show ?thesis
    unfolding createObject_def
    by (simp add: and_then_def new_apply mesh_at_last modify_mesh_last lift_def new_Mesh_def
        setObjectPosition_Some add ret_apply add_elements_def s placed_def)
qed

subsection \<open>Loops\<close>

lemma for_each_add_elements:
  assumes "\<And>a h. a \<in> set xs \<Longrightarrow> building s h \<Longrightarrow> \<exists>v. body a h = (Inr v, add_elements s (f a) h)"
    and "building s h"
  shows "for_each body xs h = (Inr (), add_elements s (concat (map f xs)) h)"
  using assms
proof (induction xs arbitrary: h)
  case Nil
  then show ?case by (simp add: ret_apply add_elements_Nil)
next
  case (Cons a xs)
  from Cons.prems obtain v where a: "body a h = (Inr v, add_elements s (f a) h)"
    by fastforce
  have b: "building s (add_elements s (f a) h)"
    using Cons.prems(2) by (rule building_add_elements)
  have "for_each body xs (add_elements s (f a) h) =
          (Inr (), add_elements s (concat (map f xs)) (add_elements s (f a) h))"
    using Cons.prems(1) b by (intro Cons.IH) auto
  then show ?case
    by (simp add: and_then_def a add_elements_twice [OF Cons.prems(2)])
qed

lemma for_each_push:
  assumes "\<And>i h. i \<in> set js \<Longrightarrow> body i h = vertices_push g (f i) h"
    and "g < length h" and "h ! g = Geometry ws"
  shows "for_each body js h = (Inr (), h[g := Geometry (ws @ concat (map f js))])"
  using assms
proof (induction js arbitrary: h ws)
  case Nil
  then show ?case by (simp add: ret_apply) (metis list_update_id)
next
  case (Cons i js)
  have a: "body i h = (Inr (), h[g := Geometry (ws @ f i)])"
    using Cons.prems by (simp add: vertices_push_def deref_def)
  have "for_each body js (h[g := Geometry (ws @ f i)]) =
          (Inr (), h[g := Geometry (ws @ f i), g := Geometry ((ws @ f i) @ concat (map f js))])"
    using Cons.prems by (intro Cons.IH) auto
  then show ?case
    by (simp add: and_then_def a)
qed

lemma closed_loop_map:
  "concat (map (\<lambda>i. [f (ps ! i), f (ps ! ((i + 1) mod length ps))]) [0..<length ps]) =
   closed_loop (map f ps)"
proof -
  have "f (ps ! ((i + 1) mod length ps)) = map f ps ! ((i + 1) mod length ps)"
    if "i < length ps" for i
  proof -
    from that have "(i + 1) mod length ps < length ps"
      by (intro mod_less_divisor) auto
    then show ?thesis by simp
  qed
  then show ?thesis
    unfolding closed_loop_def
    by (intro arg_cong [where f = concat] map_cong) auto
qed

lemma open_path_map:
  "concat (map (\<lambda>i. [f (ps ! i), f (ps ! (i + 1))]) [0..<length ps - 1]) =
   open_path (map f ps)"
  unfolding open_path_def
  by (rule arg_cong [where f = concat], rule map_cong) auto

text \<open>A line: a new geometry, the pushes, a new line object, added to the scene.\<close>

lemma polyline_add_elements:
  assumes b: "building s h"
    and body: "\<And>i h'. i \<in> set js \<Longrightarrow> body (length h) i h' = vertices_push (length h) (f i) h'"
  shows "and_then (new (Geometry [])) (\<lambda>geo.
         and_then (for_each (body geo) js) (\<lambda>_.
         and_then (new (Line None geo mat)) (\<lambda>ln.
         and_then (Object3D_add s ln) k))) h =
         k () (add_elements s [Polyline (concat (map f js)) mat] h)"
proof -
  from b obtain cs where s: "s < length h" "h ! s = Scene None cs"
    by (auto simp: building_def split: obj.splits option.splits)
  have 1: "for_each (body (length h)) js (h @ [Geometry []]) =
             (Inr (), (h @ [Geometry []])[length h := Geometry ([] @ concat (map f js))])"
    using body by (intro for_each_push) auto
  have 2: "Object3D_add s (Suc (length h))
             (h @ [Geometry (concat (map f js)), Line None (length h) mat]) =
             (Inr (), h[s := Scene None (cs @ [Suc (length h)])] @
                [Geometry (concat (map f js)), Line (Some s) (length h) mat])"
    using Object3D_add_fresh [OF s, of "Line None (length h) mat" "[Geometry (concat (map f js))]"]
    by simp
  show ?thesis
    using 1 2 by (simp add: and_then_def new_apply add_elements_def s)
qed

subsection \<open>Composing statements\<close>

text \<open>
  The three behaviours compose along \<open>and_then\<close> and \<open>for_each\<close>, which gives the
  elements each method of the service adds.
\<close>

lemma addsI: "(\<And>h. building s h \<Longrightarrow> \<exists>v. m h = (Inr v, add_elements s es h)) \<Longrightarrow> adds s m es"
  by (simp add: adds_def)

lemma addsD: "adds s m es \<Longrightarrow> building s h \<Longrightarrow> \<exists>v. m h = (Inr v, add_elements s es h)"
  by (simp add: adds_def)

lemma adds_and_then:
  assumes "adds s m a" and "\<And>v. adds s (k v) b"
  shows "adds s (and_then m k) (a @ b)"
proof (rule addsI)
  fix h assume b: "building s h"
  from addsD [OF assms(1) b] obtain v where m: "m h = (Inr v, add_elements s a h)" ..
  from addsD [OF assms(2) building_add_elements [OF b]]
  obtain u where "k v (add_elements s a h) = (Inr u, add_elements s b (add_elements s a h))" ..
  then show "\<exists>v. and_then m k h = (Inr v, add_elements s (a @ b) h)"
    by (simp add: and_then_def m add_elements_twice [OF b])
qed

lemma adds_ret: "adds s (ret v) []"
  by (rule addsI) (simp add: ret_apply add_elements_Nil)

lemma adds_createObject:
  "adds s (createObject this g mat (Some p) alt (Some r) sc s) [Marker (placed this g mat p alt r sc)]"
  by (rule addsI) (simp add: createObject_Some)

lemma adds_for_each:
  assumes "\<And>a. a \<in> set xs \<Longrightarrow> adds s (body a) (f a)"
  shows "adds s (for_each body xs) (concat (map f xs))"
proof (rule addsI)
  fix h assume "building s h"
  then have "for_each body xs h = (Inr (), add_elements s (concat (map f xs)) h)"
    using assms by (intro for_each_add_elements) (auto dest: addsD)
  then show "\<exists>v. for_each body xs h = (Inr v, add_elements s (concat (map f xs)) h)" by simp
qed

lemma adds_polyline:
  assumes body: "\<And>geo i h. i \<in> set js \<Longrightarrow> body geo i h = vertices_push geo (f i) h"
    and k: "adds s (k ()) b"
  shows "adds s (and_then (new (Geometry [])) (\<lambda>geo.
         and_then (for_each (body geo) js) (\<lambda>_.
         and_then (new (Line None geo mat)) (\<lambda>ln.
         and_then (Object3D_add s ln) k)))) (Polyline (concat (map f js)) mat # b)"
proof (rule addsI)
  fix h assume b: "building s h"
  let ?h = "add_elements s [Polyline (concat (map f js)) mat] h"
  from addsD [OF k building_add_elements [OF b]]
  obtain v where "k () ?h = (Inr v, add_elements s b ?h)" ..
  then show "\<exists>v. and_then (new (Geometry [])) (\<lambda>geo.
         and_then (for_each (body geo) js) (\<lambda>_.
         and_then (new (Line None geo mat)) (\<lambda>ln.
         and_then (Object3D_add s ln) k))) h =
         (Inr v, add_elements s (Polyline (concat (map f js)) mat # b) h)"
    using add_elements_twice [OF b, where a = "[Polyline (concat (map f js)) mat]" and b = b]
    by (simp add: polyline_add_elements [OF b, where body = body and f = f] body)
qed

lemma adds_polyline_last:
  assumes body: "\<And>geo i h. i \<in> set js \<Longrightarrow> body geo i h = vertices_push geo (f i) h"
  shows "adds s (and_then (new (Geometry [])) (\<lambda>geo.
         and_then (for_each (body geo) js) (\<lambda>_.
         and_then (new (Line None geo mat)) (\<lambda>ln.
         Object3D_add s ln)))) [Polyline (concat (map f js)) mat]"
proof -
  have "Object3D_add s ln = and_then (Object3D_add s ln) ret" for ln
    by (rule ext) (simp add: and_then_def ret_def split: prod.splits sum.splits)
  then show ?thesis
    using adds_polyline [where body = body and f = f and k = ret and b = "[]" and s = s
        and js = js and mat = mat, OF body adds_ret]
    by simp
qed

lemma segment_body:
  "and_then (lift (setObjectPosition this (Some a) alt1 (Some r) Vector3)) (\<lambda>startPt.
   and_then (lift (setObjectPosition this (Some b) alt2 (Some r) Vector3)) (\<lambda>endPt.
   vertices_push geo [startPt, endPt])) h =
   vertices_push geo [local_position this a alt1 r, local_position this b alt2 r] h"
  by (simp add: and_then_def lift_def setObjectPosition_Some)

lemma adds_addMissionSceneElements:
  assumes home: "home_pos m = Some home"
    and comps: "list_all (\<lambda>c. c \<noteq> None) (mission_components m)"
  shows "adds s (addMissionSceneElements this m s) (mission_elements this m home)"
proof -
  let ?R = "missionComponentRadius this"
  let ?G = "searchGridPtRadius this"
  have "adds s (addMissionSceneElements this m s)
     ([Marker (placed this (homePosGeometry this) (homePosMaterial this) home ?R home ?R)] @
      concat (map (\<lambda>c. [Marker (placed this (missionComponentGeometry this)
                 (missionComponentMaterial this) (the c) ?R home ?R)]) (mission_components m)) @
      concat (map (\<lambda>p. [Marker (placed this (searchGridPtGeometry this)
                 (searchGridPtMaterial this) p ?G home ?G)]) (search_grid_points m)) @
      Polyline (concat (map (\<lambda>i. [local_position this (search_grid_points m ! i) ?G home,
                 local_position this
                   (search_grid_points m ! ((i + 1) mod length (search_grid_points m))) ?G home])
                 [0..<length (search_grid_points m)])) (searchGridPtLineMaterial this) #
      concat (map (\<lambda>p. [Marker (placed this (missionWaypointGeometry this)
                 (missionWaypointMaterial this) p (altitude_msl p) home
                 (mission_waypoints_dist_max m))]) (mission_waypoints m)) @
      [Polyline (concat (map (\<lambda>i. [local_position this (mission_waypoints m ! i)
                    (altitude_msl (mission_waypoints m ! i)) home,
                 local_position this (mission_waypoints m ! (i + 1))
                    (altitude_msl (mission_waypoints m ! (i + 1))) home])
                 [0..<length (mission_waypoints m) - 1])) (missionWaypointLineMaterial this)])"
    unfolding addMissionSceneElements_def Let_def home mission_components_def [symmetric]
    apply (rule adds_and_then, rule adds_createObject)
    apply (rule adds_and_then, rule adds_for_each)
    subgoal for v a using comps by (cases a) (auto simp: list_all_iff intro: adds_createObject)
    apply (rule adds_and_then, rule adds_for_each, rule adds_createObject)
    apply (rule adds_polyline, rule segment_body)
    apply (rule adds_and_then, rule adds_for_each, rule adds_createObject)
    apply (rule adds_polyline_last, rule segment_body)
    done
  then show ?thesis
    by (simp add: mission_elements_def closed_loop_map [symmetric] open_path_map [symmetric]
        flip: closed_loop_map)
qed

lemma adds_stationary:
  "adds s (and_then (createObject this g mat (Some p) alt (Some r) sc s) (\<lambda>obstacleObj.
           and_then (modify_mesh obstacleObj f1) (\<lambda>_. modify_mesh obstacleObj f2)))
     [Marker (f2 (f1 (placed this g mat p alt r sc)))]"
proof (rule addsI)
  fix h assume b: "building s h"
  have "length (h[s := v]) = length h" for v by simp
  then show "\<exists>v. and_then (createObject this g mat (Some p) alt (Some r) sc s) (\<lambda>obstacleObj.
           and_then (modify_mesh obstacleObj f1) (\<lambda>_. modify_mesh obstacleObj f2)) h =
        (Inr v, add_elements s [Marker (f2 (f1 (placed this g mat p alt r sc)))] h)"
    by (simp add: and_then_def createObject_Some [OF b] add_elements_def modify_mesh_last)
qed

lemma adds_addObstacleSceneElements:
  assumes home: "home_pos m = Some home"
  shows "adds s (addObstacleSceneElements this m (Some obs) refPos s)
           (obstacle_elements this obs home)"
proof -
  have "adds s (addObstacleSceneElements this m (Some obs) refPos s)
     (concat (map (\<lambda>ob. [Marker (cylinder this ob home)]) (stationary_obstacles obs)) @
      concat (map (\<lambda>ob. [Marker (placed this (movingObstacleGeometry this)
                  (movingObstacleMaterial this) ob (altitude_msl ob) home (sphere_radius ob))])
        (moving_obstacles obs)))"
    unfolding addObstacleSceneElements_def home option.case cylinder_def
    apply (rule adds_and_then, rule adds_for_each)
    subgoal for ob
      using adds_stationary [where ?f1.0 = "\<lambda>m. m\<lparr>scale :=
                 \<lparr>x = cylinder_radius ob, y = cylinder_height ob,
                  z = cylinder_radius ob\<rparr>\<rparr>"
          and ?f2.0 = "\<lambda>m. m\<lparr>rotation := \<lparr>x = pi / 2, y = 0, z = 0\<rparr>\<rparr>"
          and p = ob and s = s and this = this and r = home]
      by (simp add: placed_def)
    apply (rule adds_for_each, rule adds_createObject)
    done
  then show ?thesis by (simp add: obstacle_elements_def)
qed

lemma adds_addTelemetrySceneElements:
  assumes home: "home_pos m = Some home"
  shows "adds s (addTelemetrySceneElements this m (Some tel) refPos s)
           (telemetry_elements this tel home)"
proof -
  have "adds s (addTelemetrySceneElements this m (Some tel) refPos s)
     (concat (map (\<lambda>t. [Marker (placed this (telemetryGeometry this) (telemetryMaterial this) t
                 (altitude_msl t) home (telemetryRadius this))]) tel))"
    unfolding addTelemetrySceneElements_def home option.case
    by (rule adds_for_each, rule adds_createObject)
  then show ?thesis by (simp add: telemetry_elements_def)
qed

subsection \<open>Statements that throw\<close>

lemma throwsI:
  "(\<And>h. building s h \<Longrightarrow>
      \<exists>es junk. m h = (Inl TypeError, add_elements s es h @ junk) \<and> list_all per_call junk) \<Longrightarrow>
   throws s m"
  by (simp add: throws_def)

lemma throwsD:
  "throws s m \<Longrightarrow> building s h \<Longrightarrow>
   \<exists>es junk. m h = (Inl TypeError, add_elements s es h @ junk) \<and> list_all per_call junk"
  by (simp add: throws_def)

lemma throws_first: "throws s m \<Longrightarrow> throws s (and_then m k)"
proof (rule throwsI)
  fix h assume "building s h" and "throws s m"
  then obtain es junk where "m h = (Inl TypeError, add_elements s es h @ junk)"
    and "list_all per_call junk" by (blast dest: throwsD)
  then show "\<exists>es junk. and_then m k h = (Inl TypeError, add_elements s es h @ junk) \<and>
      list_all per_call junk"
    by (auto simp: and_then_def)
qed

lemma throws_after:
  assumes "adds s m a" and "\<And>v. throws s (k v)"
  shows "throws s (and_then m k)"
proof (rule throwsI)
  fix h assume b: "building s h"
  from addsD [OF assms(1) b] obtain v where m: "m h = (Inr v, add_elements s a h)" ..
  from throwsD [OF assms(2) building_add_elements [OF b]]
  obtain es junk where "k v (add_elements s a h) = (Inl TypeError, add_elements s es (add_elements s a h) @ junk)"
    and "list_all per_call junk" by blast
  then show "\<exists>es junk. and_then m k h = (Inl TypeError, add_elements s es h @ junk) \<and>
      list_all per_call junk"
    by (auto simp: and_then_def m add_elements_twice [OF b])
qed

lemma throws_throw: "throws s (throw TypeError)"
proof (rule throwsI)
  fix h assume "building s h"
  then have "throw TypeError h = (Inl TypeError, add_elements s [] h @ [])"
    by (simp add: throw_def add_elements_Nil)
  then show "\<exists>es junk. throw TypeError h = (Inl TypeError, add_elements s es h @ junk) \<and>
      list_all per_call junk"
    by (intro exI [of _ "[]"]) simp
qed

lemma throws_createObject_None: "throws s (createObject this g mat None alt r sc s)"
proof (rule throwsI)
  fix h assume "building s h"
  then have "createObject this g mat None alt r sc s h =
      (Inl TypeError, add_elements s [] h @ [Mesh None (new_Mesh g mat)])"
    by (simp add: createObject_def and_then_def new_apply mesh_at_last lift_def
        setObjectPosition_def add_elements_Nil split: option.splits)
  moreover have "list_all per_call [Mesh None (new_Mesh g mat)]"
    by (simp add: per_call_def)
  ultimately show "\<exists>es junk. createObject this g mat None alt r sc s h =
      (Inl TypeError, add_elements s es h @ junk) \<and> list_all per_call junk"
    by blast
qed

lemma throws_for_each:
  assumes "\<And>a. a \<in> set xs \<Longrightarrow> adds s (body a) (f a) \<or> throws s (body a)"
    and "\<exists>a \<in> set xs. throws s (body a)"
  shows "throws s (for_each body xs)"
  using assms
proof (induction xs)
  case Nil
  then show ?case by simp
next
  case (Cons a xs)
  show ?case
  proof (cases "throws s (body a)")
    case True
    then show ?thesis by (simp add: throws_first)
  next
    case False
    with Cons.prems have a: "adds s (body a) (f a)" and "\<exists>a \<in> set xs. throws s (body a)"
      by auto
    with Cons have "throws s (for_each body xs)" by simp
    with a show ?thesis by (simp add: throws_after)
  qed
qed

lemma throws_addMissionSceneElements:
  assumes home: "home_pos m = Some home"
    and comps: "\<not> list_all (\<lambda>c. c \<noteq> None) (mission_components m)"
  shows "throws s (addMissionSceneElements this m s)"
  unfolding addMissionSceneElements_def Let_def home mission_components_def [symmetric]
proof (rule throws_after [OF adds_createObject], rule throws_first, rule throws_for_each)
  fix a :: "gps_position option"
  let ?body = "\<lambda>component. createObject this (missionComponentGeometry this)
      (missionComponentMaterial this) component (missionComponentRadius this) (Some home)
      (missionComponentRadius this) s"
  show "adds s (?body a) ((\<lambda>c. [Marker (placed this (missionComponentGeometry this)
      (missionComponentMaterial this) (the c) (missionComponentRadius this) home
      (missionComponentRadius this))]) a) \<or> throws s (?body a)"
    by (cases a) (auto intro: adds_createObject throws_createObject_None)
next
  from comps obtain c where "c \<in> set (mission_components m)" "c = None"
    by (auto simp: list_all_iff)
  then show "\<exists>a\<in>set (mission_components m). throws s (createObject this
      (missionComponentGeometry this) (missionComponentMaterial this) a
      (missionComponentRadius this) (Some home) (missionComponentRadius this) s)"
    by (auto intro: throws_createObject_None)
qed

subsection \<open>Building and rebuilding\<close>

lemma returnsD: "returns s m es v \<Longrightarrow> building s h \<Longrightarrow> m h = (Inr v, add_elements s es h)"
  by (simp add: returns_def)

lemma returns_ret: "returns s (ret v) [] v"
  by (simp add: returns_def ret_apply add_elements_Nil)

lemma returns_and_then:
  assumes "adds s m a" and "\<And>u. returns s (k u) b v"
  shows "returns s (and_then m k) (a @ b) v"
  unfolding returns_def
proof (intro allI impI)
  fix h assume b: "building s h"
  from addsD [OF assms(1) b] obtain u where m: "m h = (Inr u, add_elements s a h)" ..
  from returnsD [OF assms(2) building_add_elements [OF b]]
  have "k u (add_elements s a h) = (Inr v, add_elements s b (add_elements s a h))" .
  then show "and_then m k h = (Inr v, add_elements s (a @ b) h)"
    by (simp add: and_then_def m add_elements_twice [OF b])
qed

subsection \<open>Adding the ground and the lights\<close>

text \<open>
  Adding an object to the scene under construction always succeeds, and the scene stays
  under construction.
\<close>

lemma attach_building:
  assumes "building s h"
  shows "Object3D_add s r h = (Inr (), attach s r h)"
    and "building s (attach s r h)"
    and "length (attach s r h) = length h"
proof -
  from assms obtain cs where s: "s < length h" "h ! s = Scene None cs"
    by (auto simp: building_def split: obj.splits option.splits)
  show "Object3D_add s r h = (Inr (), attach s r h)"
    using s by (simp add: attach_def Object3D_add_def deref_def Let_def split: option.splits)
  have len: "length (set_parent a b k) = length k" "length (set_children a c k) = length k"
    "length (Object3D_remove a b' k) = length k" for a b c k b'
    by (simp_all add: set_parent_def set_children_def Object3D_remove_def deref_def
        split: option.splits obj.splits)
  show "length (attach s r h) = length h"
    using s by (simp add: attach_def Object3D_add_def deref_def Let_def len split: option.splits)
  have keep1: "building s (set_parent a b k)" if "building s k" "a \<noteq> s" for a b k
    using that by (auto simp: building_def set_parent_def deref_def split: option.splits obj.splits)
  have keep2: "building s (set_children a c k)" if "building s k" for a c k
    using that by (auto simp: building_def set_children_def deref_def nth_list_update
        split: option.splits obj.splits if_splits)
  have keep3: "building s (Object3D_remove a b k)" if "building s k" "b \<noteq> s" for a b k
    using that by (simp add: Object3D_remove_def keep1 keep2)
  show "building s (attach s r h)"
    using s assms
    by (auto simp: attach_def Object3D_add_def deref_def Let_def keep1 keep2 keep3
        split: option.splits)
qed

lemma length_set_parent [simp]: "length (set_parent a b k) = length k"
  by (simp add: set_parent_def split: option.splits)

lemma length_set_children [simp]: "length (set_children a c k) = length k"
  by (simp add: set_children_def split: option.splits obj.splits)

lemma length_Object3D_remove [simp]: "length (Object3D_remove a b k) = length k"
  by (simp add: Object3D_remove_def)

lemma nth_set_parent:
  "q < length k \<Longrightarrow> set_parent a b k ! q = (if q = a then with_parent b (k ! q) else k ! q)"
  by (simp add: set_parent_def deref_def)

lemma nth_set_children:
  "q < length k \<Longrightarrow>
   set_children a c k ! q = (if q = a \<and> is_scene (k ! q) then Scene (parent_of (k ! q)) c else k ! q)"
  by (auto simp: set_children_def deref_def split: obj.splits)

lemma children_of_nth: "a < length k \<Longrightarrow> children_of k a = (case k ! a of Scene p cs \<Rightarrow> cs | _ \<Rightarrow> [])"
  by (simp add: children_of_def deref_def)

lemma is_scene_with_parent [simp]: "is_scene (with_parent p v) = is_scene v"
  by (cases v) simp_all

lemma without_child_id: "\<not> is_scene v \<Longrightarrow> without_child r v = v"
  by (cases v) simp_all

lemma nth_Object3D_remove:
  assumes "q < length k" "q \<noteq> r"
  shows "Object3D_remove p r k ! q = (if q = p then without_child r (k ! q) else k ! q)"
proof (cases "k ! q")
  case (Scene pp cs)
  with assms show ?thesis
    by (auto simp: Object3D_remove_def nth_set_children nth_set_parent children_of_def deref_def
        remove1_idem)
qed (insert assms, auto simp: Object3D_remove_def nth_set_children nth_set_parent)

lemma Object3D_remove_self:
  assumes "r < length k" "\<not> is_scene (k ! r)"
  shows "with_parent b (Object3D_remove p r k ! r) = with_parent b (k ! r)"
  using assms
  by (cases "k ! r") (auto simp: Object3D_remove_def nth_set_children nth_set_parent)

lemma Object3D_remove_other:
  assumes "q < length k" "q \<noteq> r" "r \<notin> set (children_of k q)"
  shows "Object3D_remove p r k ! q = k ! q"
  using assms
  by (auto simp: Object3D_remove_def nth_set_children nth_set_parent)

lemma attach_nth:
  assumes b: "building s h" and r: "r < length h" "r \<noteq> s"
    and o: "is_object3d (h ! r)" "\<not> is_scene (h ! r)"
    and nin: "r \<notin> set (children_of h s)"
  shows "attach s r h ! s = Scene None (children_of h s @ [r])"
    and "attach s r h ! r = with_parent (Some s) (h ! r)"
    and "\<And>q. q < length h \<Longrightarrow> q \<noteq> r \<Longrightarrow> q \<noteq> s \<Longrightarrow>
           attach s r h ! q =
             (if parent_of (h ! r) = Some q then without_child r (h ! q) else h ! q)"
proof -
  from b obtain cs where s: "s < length h" "h ! s = Scene None cs"
    by (auto simp: building_def split: obj.splits option.splits)
  define h1 where "h1 = (case parent_of (h ! r) of Some p \<Rightarrow> Object3D_remove p r h | None \<Rightarrow> h)"
  define h2 where "h2 = set_parent r (Some s) h1"
  have a: "attach s r h = set_children s (children_of h2 s @ [r]) h2"
    using s r o(1)
    by (simp add: attach_def Object3D_add_def deref_def Let_def h1_def h2_def)
  have len: "length h1 = length h" "length h2 = length h"
    by (simp_all add: h1_def h2_def split: option.splits)
  have h1s: "h1 ! s = h ! s"
    using s r(2) nin by (simp add: h1_def Object3D_remove_other split: option.splits)
  have h2s: "h2 ! s = h ! s"
    using s r(2) by (simp add: h2_def nth_set_parent len h1s)
  have cs: "children_of h2 s = children_of h s"
    using s by (simp add: children_of_nth len h2s)
  show "attach s r h ! s = Scene None (children_of h s @ [r])"
    using s by (simp add: a nth_set_children len h2s cs)
  have "with_parent (Some s) (h1 ! r) = with_parent (Some s) (h ! r)"
    using r(1) o(2) by (simp add: h1_def Object3D_remove_self split: option.splits)
  then show "attach s r h ! r = with_parent (Some s) (h ! r)"
    using r by (simp add: a nth_set_children len h2_def nth_set_parent)
  show "attach s r h ! q =
      (if parent_of (h ! r) = Some q then without_child r (h ! q) else h ! q)"
    if "q < length h" "q \<noteq> r" "q \<noteq> s" for q
  proof -
    have "attach s r h ! q = h1 ! q"
      using that by (simp add: a nth_set_children len h2_def nth_set_parent)
    then show ?thesis
      using that by (auto simp: h1_def nth_Object3D_remove split: option.splits)
  qed
qed

lemma attach_nth_other:
  assumes "building s h" "r < length h" "r \<noteq> s" "is_object3d (h ! r)" "\<not> is_scene (h ! r)"
    and "r \<notin> set (children_of h s)"
    and "q < length h" "q \<noteq> r" "q \<noteq> s" "\<not> is_scene (h ! q)"
  shows "attach s r h ! q = h ! q"
proof -
  from attach_nth(3) [OF assms(1-6) assms(7-9)] assms(10)
  show ?thesis by (simp add: without_child_id)
qed

lemma staged_general:
  "length (staged this h) = Suc (length h)"
  "building (length h) (staged this h)"
proof -
  let ?n = "length h"
  let ?h0 = "h @ [Scene None []]"
  have b0: "building ?n ?h0" by (simp add: building_def)
  note b1 = attach_building(2,3) [OF b0, of "ground this"]
  note b2 = attach_building(2,3) [OF b1(1), of "skyLight this"]
  note b3 = attach_building(2,3) [OF b2(1), of "sunLight this"]
  show "length (staged this h) = Suc (length h)"
    by (simp add: staged_def b1(2) b2(2) b3(2))
  show "building (length h) (staged this h)"
    unfolding staged_def by (rule b3(1))
qed

lemma staged_nth:
  assumes g: "ground this < length h" "is_mesh (deref h (ground this))"
    and sky: "is_hemisphere_light (deref h (skyLight this))"
    and sun: "is_directional_light (deref h (sunLight this))"
  shows "staged this h ! length h = Scene None [ground this, skyLight this, sunLight this]"
    and "staged this h ! ground this = with_parent (Some (length h)) (h ! ground this)"
    and "staged this h ! skyLight this = with_parent (Some (length h)) (h ! skyLight this)"
    and "staged this h ! sunLight this = with_parent (Some (length h)) (h ! sunLight this)"
    and "\<And>q. q < length h \<Longrightarrow> q \<noteq> ground this \<Longrightarrow> q \<noteq> skyLight this \<Longrightarrow>
           q \<noteq> sunLight this \<Longrightarrow>
           staged this h ! q = released h [ground this, skyLight this, sunLight this] q"
proof -
  let ?n = "length h"
  let ?g = "ground this" and ?sky = "skyLight this" and ?sun = "sunLight this"
  let ?rs = "[?g, ?sky, ?sun]"
  let ?h0 = "h @ [Scene None []]"
  define h1 where "h1 = attach ?n ?g ?h0"
  define h2 where "h2 = attach ?n ?sky h1"
  define h3 where "h3 = attach ?n ?sun h2"
  have st: "staged this h = h3"
    by (simp add: staged_def h1_def h2_def h3_def)
  from g sky sun have lt: "?g < ?n" "?sky < ?n" "?sun < ?n"
    by (auto simp: deref_def is_hemisphere_light_def is_directional_light_def split: if_splits)
  from g sky sun have kinds:
    "is_object3d (h ! ?g)" "\<not> is_scene (h ! ?g)"
    "is_object3d (h ! ?sky)" "\<not> is_scene (h ! ?sky)"
    "is_object3d (h ! ?sun)" "\<not> is_scene (h ! ?sun)"
    by (auto simp: deref_def is_mesh_def is_hemisphere_light_def is_directional_light_def
        split: if_splits obj.splits)
  from g sky sun have ne: "?g \<noteq> ?sky" "?g \<noteq> ?sun" "?sky \<noteq> ?sun"
    by (auto simp: deref_def is_mesh_def is_hemisphere_light_def is_directional_light_def
        split: if_splits obj.splits)
  have old: "?h0 ! q = h ! q" if "q < ?n" for q
    using that by (simp add: nth_append)
  have b0: "building ?n ?h0" by (simp add: building_def)
  have c0: "children_of ?h0 ?n = []" by (simp add: children_of_def deref_def)
  note b1 = attach_building(2,3) [OF b0, of ?g, folded h1_def]
  note b2 = attach_building(2,3) [OF b1(1), of ?sky, folded h2_def]
  note b3 = attach_building(2,3) [OF b2(1), of ?sun, folded h3_def]
  have len: "length h1 = Suc ?n" "length h2 = Suc ?n" "length h3 = Suc ?n"
    by (simp_all add: b1(2) b2(2) b3(2))
  have p1: "?g < length ?h0" "?g \<noteq> ?n" "is_object3d (?h0 ! ?g)" "\<not> is_scene (?h0 ! ?g)"
    "?g \<notin> set (children_of ?h0 ?n)"
    using lt kinds by (simp_all add: old c0)
  note a1 = attach_nth [OF b0 p1, folded h1_def]
  have c1: "children_of h1 ?n = [?g]"
    by (simp add: children_of_nth len a1(1) c0)
  have o1: "h1 ! q = h ! q" if "q < ?n" "q \<noteq> ?g" "\<not> is_scene (h ! q)" for q
    using attach_nth_other [OF b0 p1, of q] that by (simp add: h1_def old)
  have p2: "?sky < length h1" "?sky \<noteq> ?n" "is_object3d (h1 ! ?sky)" "\<not> is_scene (h1 ! ?sky)"
    "?sky \<notin> set (children_of h1 ?n)"
    using lt kinds ne by (simp_all add: len c1 o1)
  note a2 = attach_nth [OF b1(1) p2, folded h2_def]
  have c2: "children_of h2 ?n = [?g, ?sky]"
    by (simp add: children_of_nth len a2(1) c1)
  have o2: "h2 ! q = h1 ! q" if "q < ?n" "q \<noteq> ?sky" "\<not> is_scene (h1 ! q)" for q
    using attach_nth_other [OF b1(1) p2, of q] that by (simp add: h2_def len)
  have h2sun: "h2 ! ?sun = h ! ?sun"
    using lt kinds ne by (simp add: o2 o1)
  have p3: "?sun < length h2" "?sun \<noteq> ?n" "is_object3d (h2 ! ?sun)" "\<not> is_scene (h2 ! ?sun)"
    "?sun \<notin> set (children_of h2 ?n)"
    using lt kinds ne by (simp_all add: len c2 h2sun)
  note a3 = attach_nth [OF b2(1) p3, folded h3_def]
  have o3: "h3 ! q = h2 ! q" if "q < ?n" "q \<noteq> ?sun" "\<not> is_scene (h2 ! q)" for q
    using attach_nth_other [OF b2(1) p3, of q] that by (simp add: h3_def len)
  show "staged this h ! ?n = Scene None ?rs"
    by (simp add: st a3(1) c2)
  show "staged this h ! ?sun = with_parent (Some ?n) (h ! ?sun)"
    by (simp add: st a3(2) h2sun)
  have h1g: "h1 ! ?g = with_parent (Some ?n) (h ! ?g)"
    using lt by (simp add: a1(2) old)
  have h2sky: "h2 ! ?sky = with_parent (Some ?n) (h ! ?sky)"
    using lt kinds ne by (simp add: a2(2) o1)
  have "h2 ! ?g = h1 ! ?g"
    using lt kinds ne by (intro o2) (simp_all add: h1g)
  moreover have "h3 ! ?g = h2 ! ?g"
    using lt kinds ne by (intro o3) (simp_all add: calculation h1g)
  ultimately show "staged this h ! ?g = with_parent (Some ?n) (h ! ?g)"
    by (simp add: st h1g)
  have "h3 ! ?sky = h2 ! ?sky"
    using lt kinds ne by (intro o3) (simp_all add: h2sky)
  then show "staged this h ! ?sky = with_parent (Some ?n) (h ! ?sky)"
    by (simp add: st h2sky)
  have h1sky: "h1 ! ?sky = h ! ?sky"
    using lt kinds ne by (simp add: o1)
  show "staged this h ! q = released h ?rs q"
    if q: "q < ?n" "q \<noteq> ?g" "q \<noteq> ?sky" "q \<noteq> ?sun" for q
  proof -
    from q have q': "q < length ?h0" "q < length h1" "q < length h2" "q \<noteq> ?n"
      by (simp_all add: len)
    note s1 = a1(3) [OF q'(1) q(2) q'(4), unfolded old [OF q(1)] old [OF lt(1)]]
    note s2 = a2(3) [OF q'(2) q(3) q'(4), unfolded h1sky]
    note s3 = a3(3) [OF q'(3) q(4) q'(4), unfolded h2sun]
    show ?thesis
      unfolding st s3 s2 s1 by (simp add: released_def)
  qed
qed

subsection \<open>The heap a call leaves\<close>

text \<open>Lines 119--126 always succeed; what follows runs on the staged heap.\<close>

lemma build_scene_staged:
  "and_then (new (Scene None [])) (\<lambda>scene.
   and_then (Object3D_add scene (ground this)) (\<lambda>_.
   and_then (Object3D_add scene (skyLight this)) (\<lambda>_.
   and_then (Object3D_add scene (sunLight this)) (\<lambda>_. k scene)))) h =
   k (length h) (staged this h)"
proof -
  let ?n = "length h"
  let ?h0 = "h @ [Scene None []]"
  have b0: "building ?n ?h0" by (simp add: building_def)
  note b1 = attach_building [OF b0, of "ground this"]
  note b2 = attach_building [OF b1(2), of "skyLight this"]
  note b3 = attach_building [OF b2(2), of "sunLight this"]
  show ?thesis
    by (simp add: and_then_def new_apply b1(1) b2(1) b3(1) staged_def)
qed

lemma build_scene_complete:
  assumes "complete_input mission obstacles telemetry"
  shows "build_scene this mission obstacles telemetry h =
     (Inr (length h),
      add_elements (length h) (fresh_elements this mission obstacles telemetry) (staged this h))"
proof -
  let ?s = "length h"
  have elems: "adds ?s
       (case mission of
          None \<Rightarrow> ret ()
        | Some mission \<Rightarrow>
            if home_pos mission \<noteq> None then
              and_then (addMissionSceneElements this mission ?s) (\<lambda>_.
              and_then (addObstacleSceneElements this mission obstacles
                  (home_pos mission) ?s) (\<lambda>_.
              addTelemetrySceneElements this mission telemetry (home_pos mission) ?s))
            else ret ())
       (fresh_elements this mission obstacles telemetry)"
  proof (cases mission)
    case None
    then show ?thesis by (simp add: adds_ret fresh_elements_def)
  next
    case (Some m)
    show ?thesis
    proof (cases "home_pos m")
      case None
      with Some show ?thesis by (simp add: adds_ret fresh_elements_def)
    next
      case home: (Some home)
      from assms Some home obtain obs tel
        where c: "list_all (\<lambda>c. c \<noteq> None) (mission_components m)"
          and o: "obstacles = Some obs" and t: "telemetry = Some tel"
        by (auto simp: complete_input_def)
      show ?thesis
        unfolding Some o t
        by (simp add: home fresh_elements_def)
           (intro adds_and_then adds_addMissionSceneElements adds_addObstacleSceneElements
             adds_addTelemetrySceneElements home c)
    qed
  qed
  have "returns ?s
     (and_then
       (case mission of
          None \<Rightarrow> ret ()
        | Some mission \<Rightarrow>
            if home_pos mission \<noteq> None then
              and_then (addMissionSceneElements this mission ?s) (\<lambda>_.
              and_then (addObstacleSceneElements this mission obstacles
                  (home_pos mission) ?s) (\<lambda>_.
              addTelemetrySceneElements this mission telemetry (home_pos mission) ?s))
            else ret ()) (\<lambda>_.
      ret ?s))
     (fresh_elements this mission obstacles telemetry @ [])
     ?s"
    by (intro returns_and_then elems returns_ret)
  from returnsD [OF this staged_general(2) [of h this]]
  show ?thesis
    by (simp add: build_scene_def build_scene_staged)
qed

lemma build_scene_incomplete:
  assumes "\<not> complete_input mission obstacles telemetry"
  shows "\<exists>es junk. build_scene this mission obstacles telemetry h =
           (Inl TypeError, add_elements (length h) es (staged this h) @ junk) \<and>
           list_all per_call junk"
proof -
  let ?s = "length h"
  from assms obtain m home where m: "mission = Some m" and home: "home_pos m = Some home"
    and missing: "\<not> list_all (\<lambda>c. c \<noteq> None) (mission_components m) \<or>
                  obstacles = None \<or> telemetry = None"
    by (auto simp: complete_input_def split: option.splits)
  have "throws ?s
     (and_then (addMissionSceneElements this m ?s) (\<lambda>_.
      and_then (addObstacleSceneElements this m obstacles (home_pos m) ?s) (\<lambda>_.
      addTelemetrySceneElements this m telemetry (home_pos m) ?s)))"
  proof (cases "list_all (\<lambda>c. c \<noteq> None) (mission_components m)")
    case False
    with home show ?thesis
      by (intro throws_first throws_addMissionSceneElements)
  next
    case comps: True
    note mis = adds_addMissionSceneElements [OF home comps]
    show ?thesis
    proof (cases obstacles)
      case None
      then show ?thesis
        by (intro throws_after [OF mis] throws_first)
           (simp add: addObstacleSceneElements_def throws_throw)
    next
      case (Some obs)
      with missing comps have "telemetry = None" by simp
      then show ?thesis
        unfolding Some
        by (intro throws_after [OF mis] throws_after [OF adds_addObstacleSceneElements [OF home]])
           (simp add: addTelemetrySceneElements_def throws_throw)
    qed
  qed
  then have t: "throws ?s
     (and_then
        (and_then (addMissionSceneElements this m ?s) (\<lambda>_.
         and_then (addObstacleSceneElements this m obstacles (home_pos m) ?s) (\<lambda>_.
         addTelemetrySceneElements this m telemetry (home_pos m) ?s))) (\<lambda>_.
      ret ?s))"
    by (rule throws_first)
  from throwsD [OF t staged_general(2) [of h this]]
  obtain es junk where e: "and_then
        (and_then (addMissionSceneElements this m ?s) (\<lambda>_.
         and_then (addObstacleSceneElements this m obstacles (home_pos m) ?s) (\<lambda>_.
         addTelemetrySceneElements this m telemetry (home_pos m) ?s))) (\<lambda>_.
      ret ?s) (staged this h) = (Inl TypeError, add_elements ?s es (staged this h) @ junk)"
    and j: "list_all per_call junk"
    by blast
  have "build_scene this mission obstacles telemetry h =
      (Inl TypeError, add_elements ?s es (staged this h) @ junk)"
    by (simp add: build_scene_def build_scene_staged m home e [unfolded home])
  with j show ?thesis by blast
qed

lemma per_call_new_objects: "list_all per_call (new_objects s n es)"
  by (induction s n es rule: new_objects.induct) (simp_all add: per_call_def)

lemma new_objects_no_scene: "list_all (\<lambda>v. \<not> is_scene v) (new_objects s n es)"
  by (induction s n es rule: new_objects.induct) simp_all

lemma rebuildScene_complete:
  assumes "complete_input mission obstacles telemetry"
  shows "rebuildScene mission obstacles telemetry w =
     (Inr (),
      w\<lparr>heap := add_elements (length (heap w))
                 (fresh_elements (service w) mission obstacles telemetry)
                 (staged (service w) (heap w)),
        service := (service w)\<lparr>scene := Some (length (heap w))\<rparr>,
        broadcasts := broadcasts w @
           [\<lparr>event_name = ''MissionScene.sceneUpdated'',
             observed_scene = Some (length (heap w))\<rparr>]\<rparr>)"
  by (simp add: rebuildScene_def build_scene_complete [OF assms] broadcast_def)

lemma rebuildScene_incomplete:
  assumes "\<not> complete_input mission obstacles telemetry"
  shows "\<exists>es junk. rebuildScene mission obstacles telemetry w =
           (Inl TypeError,
            w\<lparr>heap := add_elements (length (heap w)) es (staged (service w) (heap w)) @ junk\<rparr>) \<and>
           list_all per_call junk"
proof -
  from build_scene_incomplete [OF assms]
  obtain es junk where b: "build_scene (service w) mission obstacles telemetry (heap w) =
           (Inl TypeError, add_elements (length (heap w)) es (staged (service w) (heap w)) @ junk)"
    and j: "list_all per_call junk" by blast
  have "rebuildScene mission obstacles telemetry w =
      (Inl TypeError,
       w\<lparr>heap := add_elements (length (heap w)) es (staged (service w) (heap w)) @ junk\<rparr>)"
    by (simp add: rebuildScene_def b)
  with j show ?thesis by blast
qed

text \<open>
  The heap after elements have been added to the staged scene: the objects that existed
  before are as staging left them, the scene has its children, and everything else is
  new.
\<close>

lemma add_elements_staged:
  assumes "length st = Suc n" and "st ! n = Scene None cs"
  shows "add_elements n es st @ junk =
           st[n := Scene None (cs @ new_children (Suc n) es)] @ new_objects n (Suc n) es @ junk"
    and "q < n \<Longrightarrow> (add_elements n es st @ junk) ! q = st ! q"
    and "(add_elements n es st @ junk) ! n = Scene None (cs @ new_children (Suc n) es)"
    and "drop n (add_elements n es st @ junk) =
           Scene None (cs @ new_children (Suc n) es) # new_objects n (Suc n) es @ junk"
proof -
  show e: "add_elements n es st @ junk =
           st[n := Scene None (cs @ new_children (Suc n) es)] @ new_objects n (Suc n) es @ junk"
    by (simp add: add_elements_def assms)
  show "(add_elements n es st @ junk) ! q = st ! q" if "q < n"
    using that by (simp add: e nth_append assms(1))
  show "(add_elements n es st @ junk) ! n = Scene None (cs @ new_children (Suc n) es)"
    by (simp add: e nth_append assms(1))
  from assms(1) obtain pre v where st: "st = pre @ [v]" "n = length pre"
    by (cases st rule: rev_cases) auto
  then have "st[n := Scene None (cs @ new_children (Suc n) es)] =
      pre @ [Scene None (cs @ new_children (Suc n) es)]"
    by simp
  then show "drop n (add_elements n es st @ junk) =
           Scene None (cs @ new_children (Suc n) es) # new_objects n (Suc n) es @ junk"
    unfolding e by (simp add: st(2))
qed

subsection \<open>Reading the rebuilt scene\<close>

lemma fresh_only_append [simp]: "fresh_only (a @ b) \<longleftrightarrow> fresh_only a \<and> fresh_only b"
  by (simp add: fresh_only_def)

lemma fresh_only_Marker [simp]: "fresh_only (map (\<lambda>a. Marker (f a)) xs)"
  by (simp add: fresh_only_def list_all_iff)

lemma fresh_only_mission_elements: "fresh_only (mission_elements this m home)"
  by (auto simp: mission_elements_def fresh_only_def list_all_iff)

lemma fresh_only_obstacle_elements: "fresh_only (obstacle_elements this obs home)"
  by (simp add: obstacle_elements_def)

lemma fresh_only_telemetry_elements: "fresh_only (telemetry_elements this tel home)"
  by (simp add: telemetry_elements_def)

lemma element_at_fresh:
  assumes "fresh_only es" and "ground this < length pre"
  shows "map (element_at this (pre @ new_objects s (length pre) es @ after))
           (new_children (length pre) es) = es"
  using assms
proof (induction es arbitrary: pre)
  case Nil
  then show ?case by simp
next
  case (Cons e es)
  show ?case
  proof (cases e)
    case (Shared r)
    with Cons.prems show ?thesis by (simp add: fresh_only_def)
  next
    case (Marker m)
    have "map (element_at this ((pre @ [Mesh (Some s) m]) @
              new_objects s (length (pre @ [Mesh (Some s) m])) es @ after))
            (new_children (length (pre @ [Mesh (Some s) m])) es) = es"
      using Cons.prems by (intro Cons.IH) (auto simp: fresh_only_def)
    moreover have "element_at this (pre @ Mesh (Some s) m # rest) (length pre) = Marker m" for rest
      using Cons.prems(2) by (simp add: element_at_def deref_def)
    ultimately show ?thesis by (simp add: Marker)
  next
    case (Polyline vs mat)
    let ?pre = "pre @ [Geometry vs, Line (Some s) (length pre) mat]"
    have "map (element_at this (?pre @ new_objects s (length ?pre) es @ after))
            (new_children (length ?pre) es) = es"
      using Cons.prems by (intro Cons.IH) (auto simp: fresh_only_def)
    moreover have "element_at this (pre @ Geometry vs # Line (Some s) (length pre) mat # rest)
        (Suc (length pre)) = Polyline vs mat" for rest
      by (simp add: element_at_def deref_def nth_append)
    ultimately show ?thesis by (simp add: Polyline)
  qed
qed

lemma element_at_shared:
  assumes "r < length h"
    and "r = ground this \<and> is_mesh (deref h r) \<or> is_hemisphere_light (deref h r) \<or>
         is_directional_light (deref h r)"
  shows "element_at this (h @ rest) r = Shared r"
  using assms
  by (auto simp: element_at_def deref_def nth_append is_mesh_def is_hemisphere_light_def
      is_directional_light_def split: obj.splits option.splits if_splits)

lemma fresh_only_fresh_elements: "fresh_only (fresh_elements this mission obstacles telemetry)"
  by (simp add: fresh_elements_def fresh_only_mission_elements fresh_only_obstacle_elements
      fresh_only_telemetry_elements fresh_only_def [of "[]"] split: option.splits)

lemma kind_with_parent [simp]:
  "is_mesh (Some (with_parent p v)) = is_mesh (Some v)"
  "is_hemisphere_light (Some (with_parent p v)) = is_hemisphere_light (Some v)"
  "is_directional_light (Some (with_parent p v)) = is_directional_light (Some v)"
  by (cases v; simp add: is_mesh_def is_hemisphere_light_def is_directional_light_def)+

lemma scene_elements_rebuilt:
  assumes "ground this < length h" "is_mesh (deref h (ground this))"
    and "is_hemisphere_light (deref h (skyLight this))"
    and "is_directional_light (deref h (sunLight this))"
    and "fresh_only es"
  shows "scene_elements this (add_elements (length h) es (staged this h)) (length h) =
         Shared (ground this) # Shared (skyLight this) # Shared (sunLight this) # es"
proof -
  let ?n = "length h"
  let ?st = "staged this h"
  let ?cs = "[ground this, skyLight this, sunLight this]"
  let ?pre = "?st[?n := Scene None (?cs @ new_children (Suc ?n) es)]"
  note st = staged_general(1) [of this h] staged_nth(1) [OF assms(1-4)]
  have H: "add_elements ?n es ?st = ?pre @ new_objects ?n (Suc ?n) es"
    using add_elements_staged(1) [OF st, of es "[]"] by simp
  have sky: "skyLight this < ?n" and sun: "sunLight this < ?n"
    using assms(3,4)
    by (auto simp: deref_def is_hemisphere_light_def is_directional_light_def split: if_splits)
  have len: "length ?pre = Suc ?n" by (simp add: st(1))
  have "map (element_at this (?pre @ new_objects ?n (length ?pre) es @ []))
             (new_children (length ?pre) es) = es"
    using assms(5,1) by (intro element_at_fresh) (simp_all add: st(1))
  then have 1: "map (element_at this (?pre @ new_objects ?n (Suc ?n) es))
             (new_children (Suc ?n) es) = es"
    by (simp only: len append_Nil2)
  have d: "deref ?pre (ground this) = Some (with_parent (Some ?n) (h ! ground this))"
    "deref ?pre (skyLight this) = Some (with_parent (Some ?n) (h ! skyLight this))"
    "deref ?pre (sunLight this) = Some (with_parent (Some ?n) (h ! sunLight this))"
    using assms(1) sky sun by (simp_all add: deref_def st(1) staged_nth(2-4) [OF assms(1-4)])
  have k: "is_mesh (Some (h ! ground this))" "is_hemisphere_light (Some (h ! skyLight this))"
    "is_directional_light (Some (h ! sunLight this))"
    using assms(1-4) sky sun by (simp_all add: deref_def)
  have 2: "element_at this (?pre @ rest) (ground this) = Shared (ground this)"
          "element_at this (?pre @ rest) (skyLight this) = Shared (skyLight this)"
          "element_at this (?pre @ rest) (sunLight this) = Shared (sunLight this)" for rest
  proof -
    have lt: "ground this < length ?pre" "skyLight this < length ?pre"
      "sunLight this < length ?pre"
      using assms(1) sky sun by (simp_all add: st(1))
    show "element_at this (?pre @ rest) (ground this) = Shared (ground this)"
      by (rule element_at_shared [OF lt(1)]) (insert d k, simp)
    show "element_at this (?pre @ rest) (skyLight this) = Shared (skyLight this)"
      by (rule element_at_shared [OF lt(2)]) (insert d k, simp)
    show "element_at this (?pre @ rest) (sunLight this) = Shared (sunLight this)"
      by (rule element_at_shared [OF lt(3)]) (insert d k, simp)
  qed
  have "deref (?pre @ new_objects ?n (Suc ?n) es) ?n =
      Some (Scene None (?cs @ new_children (Suc ?n) es))"
    by (simp add: deref_def nth_append st(1))
  then show ?thesis
    using 1 2 [of "new_objects ?n (Suc ?n) es"] by (simp add: H scene_elements_def)
qed

subsection \<open>The constructed service\<close>

lemma deref_append: "r < length h \<Longrightarrow> deref (h @ k) r = deref h r"
  by (simp add: deref_def nth_append)

lemma heap_initial_world: "length (heap (initial_world D)) = 16"
  by (simp add: initial_world_def MissionScene_def alloc_def Let_def)

lemma constructed_initial_world: "constructed (initial_world D)"
  by (simp add: constructed_def initial_world_def MissionScene_def alloc_def Let_def
      resources_def deref_def is_mesh_def is_hemisphere_light_def is_directional_light_def)

lemma service_initial_world:
  "ground (service (initial_world D)) = 5"
  "skyLight (service (initial_world D)) = 0"
  "sunLight (service (initial_world D)) = 1"
  "distance (service (initial_world D)) = D"
  by (simp_all add: initial_world_def MissionScene_def alloc_def Let_def)

subsection \<open>Vertex pairs, markers and lines\<close>

lemma pairs_length: "length (concat (map (\<lambda>i. [f i, g i]) [0..<n])) = 2 * n"
  by (induction n) simp_all

lemma pairs_nth:
  "i < n \<Longrightarrow> concat (map (\<lambda>i. [f i, g i]) [0..<n]) ! (2 * i) = f i \<and>
            concat (map (\<lambda>i. [f i, g i]) [0..<n]) ! (2 * i + 1) = g i"
proof (induction n)
  case 0
  then show ?case by simp
next
  case (Suc n)
  show ?case
  proof (cases "i < n")
    case True
    with Suc.IH show ?thesis by (simp add: nth_append pairs_length)
  next
    case False
    with Suc.prems have "i = n" by simp
    then show ?thesis by (simp add: nth_append pairs_length)
  qed
qed

lemma markers_append [simp]: "markers (a @ b) = markers a @ markers b"
  by (simp add: markers_def)

lemma markers_Cons [simp]:
  "markers (Marker m # es) = m # markers es"
  "markers (Shared r # es) = markers es"
  "markers (Polyline vs mat # es) = markers es"
  "markers [] = []"
  by (simp_all add: markers_def)

lemma markers_map [simp]: "markers (map (\<lambda>a. Marker (f a)) xs) = map f xs"
  by (induction xs) simp_all

lemma polylines_append [simp]: "polylines (a @ b) = polylines a @ polylines b"
  by (simp add: polylines_def)

lemma polylines_Cons [simp]:
  "polylines (Marker m # es) = polylines es"
  "polylines (Shared r # es) = polylines es"
  "polylines (Polyline vs mat # es) = (vs, mat) # polylines es"
  "polylines [] = []"
  by (simp_all add: polylines_def)

lemma polylines_map [simp]: "polylines (map (\<lambda>a. Marker (f a)) xs) = []"
  by (induction xs) simp_all

lemma expected_elements_scene_update [simp]:
  "expected_elements (this\<lparr>scene := v\<rparr>) mission obstacles telemetry =
   expected_elements this mission obstacles telemetry"
  by (simp add: expected_elements_def fresh_elements_def mission_elements_def
      obstacle_elements_def telemetry_elements_def placed_def cylinder_def local_position_def
      cong: option.case_cong)

lemma scene_elements_scene_update [simp]:
  "scene_elements (this\<lparr>scene := v\<rparr>) h s = scene_elements this h s"
proof -
  have "element_at (this\<lparr>scene := v\<rparr>) h = element_at this h"
    by (rule ext) (simp add: element_at_def split: option.splits obj.splits)
  then show ?thesis by (simp add: scene_elements_def split: option.splits obj.splits)
qed

lemma rebuildScene_Inr:
  assumes "rebuildScene mission obstacles telemetry w = (Inr u, w')"
  shows "complete_input mission obstacles telemetry"
proof (rule ccontr)
  assume "\<not> complete_input mission obstacles telemetry"
  from rebuildScene_incomplete [OF this, of w] assms show False by auto
qed

text \<open>What a complete call leaves behind, read back from the heap.\<close>

lemma rebuilt:
  assumes c: "constructed w"
    and r: "rebuildScene mission obstacles telemetry w = (Inr u, w')"
  shows "scene (service w') = Some (length (heap w))"
    and "scene_elements (service w') (heap w') (length (heap w)) =
         expected_elements (service w) mission obstacles telemetry"
    and "service w' = (service w)\<lparr>scene := Some (length (heap w))\<rparr>"
    and "heap w' = add_elements (length (heap w))
           (fresh_elements (service w) mission obstacles telemetry)
           (staged (service w) (heap w))"
    and "broadcasts w' = broadcasts w @
           [\<lparr>event_name = ''MissionScene.sceneUpdated'',
             observed_scene = Some (length (heap w))\<rparr>]"
proof -
  note ci = rebuildScene_Inr [OF r]
  let ?E = "fresh_elements (service w) mission obstacles telemetry"
  from r rebuildScene_complete [OF ci, of w]
  have w': "w' = w\<lparr>heap := add_elements (length (heap w)) ?E (staged (service w) (heap w)),
        service := (service w)\<lparr>scene := Some (length (heap w))\<rparr>,
        broadcasts := broadcasts w @
           [\<lparr>event_name = ''MissionScene.sceneUpdated'',
             observed_scene = Some (length (heap w))\<rparr>]\<rparr>"
    by simp
  show "scene (service w') = Some (length (heap w))"
    and "service w' = (service w)\<lparr>scene := Some (length (heap w))\<rparr>"
    and "heap w' = add_elements (length (heap w)) ?E (staged (service w) (heap w))"
    and "broadcasts w' = broadcasts w @
           [\<lparr>event_name = ''MissionScene.sceneUpdated'',
             observed_scene = Some (length (heap w))\<rparr>]"
    by (simp_all add: w')
  from c have g: "ground (service w) < length (heap w)"
    and k: "is_mesh (deref (heap w) (ground (service w)))"
      "is_hemisphere_light (deref (heap w) (skyLight (service w)))"
      "is_directional_light (deref (heap w) (sunLight (service w)))"
    by (simp_all add: constructed_def resources_def)
  from scene_elements_rebuilt [OF g k fresh_only_fresh_elements]
  show "scene_elements (service w') (heap w') (length (heap w)) =
      expected_elements (service w) mission obstacles telemetry"
    by (simp add: w' expected_elements_def)
qed
subsection \<open>What a call leaves unchanged\<close>

lemma rebuildScene_frame:
  assumes "rebuildScene mission obstacles telemetry w = (r, w')"
  shows "service w' = (service w)\<lparr>scene := scene (service w')\<rparr>"
    and "\<exists>es junk. heap w' =
           add_elements (length (heap w)) es (staged (service w) (heap w)) @ junk \<and>
           list_all per_call junk"
    and "r \<noteq> Inr () \<Longrightarrow> r = Inl TypeError \<and> service w' = service w \<and> broadcasts w' = broadcasts w"
proof -
  let ?F = "fresh_elements (service w) mission obstacles telemetry"
  let ?st = "staged (service w) (heap w)"
  have "service w' = (service w)\<lparr>scene := scene (service w')\<rparr> \<and>
    (\<exists>es junk. heap w' = add_elements (length (heap w)) es ?st @ junk \<and> list_all per_call junk) \<and>
    (r \<noteq> Inr () \<longrightarrow> r = Inl TypeError \<and> service w' = service w \<and> broadcasts w' = broadcasts w)"
  proof (cases "complete_input mission obstacles telemetry")
    case True
    from assms have r: "r = fst (rebuildScene mission obstacles telemetry w)"
      and w': "w' = snd (rebuildScene mission obstacles telemetry w)" by simp_all
    have "r = Inr ()" "heap w' = add_elements (length (heap w)) ?F ?st @ []"
      "service w' = (service w)\<lparr>scene := Some (length (heap w))\<rparr>"
      unfolding r w' by (simp_all add: rebuildScene_complete [OF True])
    then show ?thesis by (intro conjI exI [of _ ?F] exI [of _ "[]"]) simp_all
  next
    case False
    from rebuildScene_incomplete [OF False, of w]
    obtain es junk where e: "rebuildScene mission obstacles telemetry w =
           (Inl TypeError, w\<lparr>heap := add_elements (length (heap w)) es ?st @ junk\<rparr>)"
      and p: "list_all per_call junk" by blast
    from assms e have "r = Inl TypeError"
      "w' = w\<lparr>heap := add_elements (length (heap w)) es ?st @ junk\<rparr>"
      by simp_all
    with p show ?thesis by (intro conjI exI [of _ es] exI [of _ junk]) simp_all
  qed
  then show "service w' = (service w)\<lparr>scene := scene (service w')\<rparr>"
    and "\<exists>es junk. heap w' =
           add_elements (length (heap w)) es (staged (service w) (heap w)) @ junk \<and>
           list_all per_call junk"
    and "r \<noteq> Inr () \<Longrightarrow> r = Inl TypeError \<and> service w' = service w \<and> broadcasts w' = broadcasts w"
    by blast+
qed

text \<open>
  The objects after a call, succeeding or not: the ground and the lights have the new
  scene as their parent, the other objects that existed before have at most lost them
  as children, and everything else is new.
\<close>

lemma rebuildScene_objects:
  assumes c: "constructed w" and run: "rebuildScene mission obstacles telemetry w = (r, w')"
  shows "length (heap w) < length (heap w')"
    and "list_all per_call (drop (length (heap w)) (heap w'))"
    and "heap w' ! ground (service w) =
           with_parent (Some (length (heap w))) (heap w ! ground (service w))"
    and "heap w' ! skyLight (service w) =
           with_parent (Some (length (heap w))) (heap w ! skyLight (service w))"
    and "heap w' ! sunLight (service w) =
           with_parent (Some (length (heap w))) (heap w ! sunLight (service w))"
    and "\<And>q. q < length (heap w) \<Longrightarrow> q \<noteq> ground (service w) \<Longrightarrow>
           q \<noteq> skyLight (service w) \<Longrightarrow> q \<noteq> sunLight (service w) \<Longrightarrow>
           heap w' ! q =
             released (heap w) [ground (service w), skyLight (service w), sunLight (service w)] q"
    and "\<exists>es. heap w' ! length (heap w) =
           Scene None ([ground (service w), skyLight (service w), sunLight (service w)] @
             new_children (Suc (length (heap w))) es) \<and>
           (r = Inr () \<longrightarrow> es = fresh_elements (service w) mission obstacles telemetry)"
proof -
  let ?n = "length (heap w)"
  let ?st = "staged (service w) (heap w)"
  from c have g: "ground (service w) < ?n"
    and k: "is_mesh (deref (heap w) (ground (service w)))"
      "is_hemisphere_light (deref (heap w) (skyLight (service w)))"
      "is_directional_light (deref (heap w) (sunLight (service w)))"
    and lt: "skyLight (service w) < ?n" "sunLight (service w) < ?n"
    by (simp_all add: constructed_def resources_def)
  note st = staged_general(1) [of "service w" "heap w"] staged_nth(1) [OF g k]
  have "\<exists>es junk. heap w' = add_elements ?n es ?st @ junk \<and> list_all per_call junk \<and>
      (r = Inr () \<longrightarrow> es = fresh_elements (service w) mission obstacles telemetry)"
  proof (cases "complete_input mission obstacles telemetry")
    case True
    from run have "w' = snd (rebuildScene mission obstacles telemetry w)" by simp
    then have "heap w' =
        add_elements ?n (fresh_elements (service w) mission obstacles telemetry) ?st @ []"
      by (simp add: rebuildScene_complete [OF True])
    then show ?thesis by (intro exI conjI) (assumption, simp_all)
  next
    case False
    from rebuildScene_incomplete [OF False, of w] run
    obtain es junk where "r = Inl TypeError"
      "w' = w\<lparr>heap := add_elements ?n es ?st @ junk\<rparr>" "list_all per_call junk"
      by auto
    then show ?thesis by (intro exI [of _ es] exI [of _ junk]) simp
  qed
  then obtain es junk where h: "heap w' = add_elements ?n es ?st @ junk"
    and p: "list_all per_call junk"
    and e: "r = Inr () \<longrightarrow> es = fresh_elements (service w) mission obstacles telemetry"
    by blast
  note H = add_elements_staged [OF st, where es = es and junk = junk, folded h]
  show "length (heap w) < length (heap w')"
    by (simp add: H(1) st(1))
  show "list_all per_call (drop (length (heap w)) (heap w'))"
    using p by (simp add: H(4) per_call_new_objects) (simp add: per_call_def)
  show "heap w' ! ground (service w) =
           with_parent (Some (length (heap w))) (heap w ! ground (service w))"
    using g by (simp add: H(2) staged_nth(2) [OF g k])
  show "heap w' ! skyLight (service w) =
           with_parent (Some (length (heap w))) (heap w ! skyLight (service w))"
    using lt by (simp add: H(2) staged_nth(3) [OF g k])
  show "heap w' ! sunLight (service w) =
           with_parent (Some (length (heap w))) (heap w ! sunLight (service w))"
    using lt by (simp add: H(2) staged_nth(4) [OF g k])
  show "heap w' ! q =
      released (heap w) [ground (service w), skyLight (service w), sunLight (service w)] q"
    if "q < length (heap w)" "q \<noteq> ground (service w)" "q \<noteq> skyLight (service w)"
      "q \<noteq> sunLight (service w)" for q
    using that by (simp add: H(2) staged_nth(5) [OF g k])
  from e H(3) show "\<exists>es. heap w' ! length (heap w) =
           Scene None ([ground (service w), skyLight (service w), sunLight (service w)] @
             new_children (Suc (length (heap w))) es) \<and>
           (r = Inr () \<longrightarrow> es = fresh_elements (service w) mission obstacles telemetry)"
    by blast
qed

lemma released_id: "\<not> is_scene (h ! q) \<Longrightarrow> released h rs q = h ! q"
proof -
  have "fold (\<lambda>r v. if parent_of (h ! r) = Some q then without_child r v else v) rs v = v"
    if "\<not> is_scene v" for v
    using that by (induction rs) (simp_all add: without_child_id)
  then show "\<not> is_scene (h ! q) \<Longrightarrow> released h rs q = h ! q"
    by (simp add: released_def)
qed

lemma constructed_rebuildScene:
  assumes "constructed w" and "rebuildScene mission obstacles telemetry w = (r, w')"
  shows "constructed w'"
proof -
  note o = rebuildScene_objects(1,3-5) [OF assms]
  have svc: "ground (service w') = ground (service w)"
    "skyLight (service w') = skyLight (service w)"
    "sunLight (service w') = sunLight (service w)"
    "resources (service w') = resources (service w)"
    by (subst rebuildScene_frame(1) [OF assms(2)], simp add: resources_def)+
  from assms(1) have *: "list_all (\<lambda>r. r < length (heap w)) (resources (service w))"
    and k: "is_mesh (deref (heap w) (ground (service w)))"
      "is_hemisphere_light (deref (heap w) (skyLight (service w)))"
      "is_directional_light (deref (heap w) (sunLight (service w)))"
    by (simp_all add: constructed_def)
  from * o(1) have "list_all (\<lambda>r. r < length (heap w')) (resources (service w))"
    by (auto simp: list_all_iff)
  moreover from * have lt: "ground (service w) < length (heap w)"
    "skyLight (service w) < length (heap w)" "sunLight (service w) < length (heap w)"
    by (simp_all add: resources_def)
  moreover from lt o(1) have "ground (service w) < length (heap w')"
    "skyLight (service w) < length (heap w')" "sunLight (service w) < length (heap w')"
    by simp_all
  ultimately show ?thesis
    using k by (simp add: constructed_def svc deref_def o(2-4))
qed

text \<open>The scene of a call that succeeds is a new object, in no other object.\<close>

lemma rebuilt_scene:
  assumes "rebuildScene mission obstacles telemetry w = (Inr u, w')"
  shows "\<exists>cs. deref (heap w') (length (heap w)) = Some (Scene None cs)"
proof -
  let ?n = "length (heap w)"
  let ?st = "staged (service w) (heap w)"
  from assms have "w' = snd (rebuildScene mission obstacles telemetry w)" by simp
  then have h: "heap w' =
      add_elements ?n (fresh_elements (service w) mission obstacles telemetry) ?st"
    by (simp add: rebuildScene_complete [OF rebuildScene_Inr [OF assms]])
  from staged_general(2) [of "heap w" "service w"] obtain cs where cs: "?st ! ?n = Scene None cs"
    by (auto simp: building_def split: obj.splits option.splits)
  from add_elements_staged(3) [OF staged_general(1) cs, where junk = "[]"]
    add_elements_staged(1) [OF staged_general(1) cs, where junk = "[]"]
  show ?thesis
    by (simp add: h deref_def staged_general(1))
qed

text \<open>
  A scene after a later call, succeeding or not: the later call has taken the ground
  and the lights out of it, and it still has the markers and the lines made for it.
\<close>

lemma earlier_scene:
  assumes c: "constructed w"
    and run1: "rebuildScene mission obstacles telemetry w = (Inr u, w1)"
    and run2: "rebuildScene mission2 obstacles2 telemetry2 w1 = (r2, w2)"
  shows "scene_elements (service w) (heap w2) (length (heap w)) =
           fresh_elements (service w) mission obstacles telemetry"
proof -
  let ?n = "length (heap w)"
  let ?n1 = "length (heap w1)"
  let ?g = "ground (service w)" and ?sky = "skyLight (service w)" and ?sun = "sunLight (service w)"
  let ?F = "fresh_elements (service w) mission obstacles telemetry"
  let ?C = "new_children (Suc ?n) ?F"
  let ?N = "new_objects ?n (Suc ?n) ?F"
  let ?st = "staged (service w) (heap w)"
  let ?pre = "?st[?n := Scene None ([?g, ?sky, ?sun] @ ?C)]"
  from c have lt: "?g < ?n" "?sky < ?n" "?sun < ?n"
    and k: "is_mesh (deref (heap w) ?g)" "is_hemisphere_light (deref (heap w) ?sky)"
      "is_directional_light (deref (heap w) ?sun)"
    by (simp_all add: constructed_def resources_def)
  from k lt have o3: "is_object3d (heap w ! ?g)" "is_object3d (heap w ! ?sky)"
    "is_object3d (heap w ! ?sun)"
    by (auto simp: deref_def is_mesh_def is_hemisphere_light_def is_directional_light_def
        split: obj.splits)
  have p: "parent_of (with_parent (Some ?n) v) = Some ?n" if "is_object3d v" for v
    using that by (cases v) simp_all
  note st = staged_general(1) [of "service w" "heap w"] staged_nth(1) [OF lt(1) k]
  have h1: "heap w1 = ?pre @ ?N"
    using add_elements_staged(1) [OF st, where es = ?F and junk = "[]"]
    by (simp add: rebuilt(4) [OF c run1])
  have len: "length ?pre = Suc ?n" "?n1 = Suc ?n + length ?N"
    by (simp_all add: h1 st(1))
  note o1 = rebuildScene_objects(3-5) [OF c run1]
  have svc: "ground (service w1) = ?g" "skyLight (service w1) = ?sky"
    "sunLight (service w1) = ?sun"
    by (simp_all add: rebuilt(3) [OF c run1])
  note c1 = constructed_rebuildScene [OF c run1]
  note o2 = rebuildScene_objects(1,6) [OF c1 run2, unfolded svc]
  have par: "parent_of (heap w1 ! ?g) = Some ?n" "parent_of (heap w1 ! ?sky) = Some ?n"
    "parent_of (heap w1 ! ?sun) = Some ?n"
    by (simp_all add: o1 p o3)
  have "heap w1 ! ?n = Scene None ([?g, ?sky, ?sun] @ ?C)"
    by (simp add: h1 nth_append st(1))
  moreover have "heap w2 ! ?n = released (heap w1) [?g, ?sky, ?sun] ?n"
    using lt by (intro o2(2)) (simp_all add: h1 st(1))
  ultimately have scene: "heap w2 ! ?n = Scene None ?C"
    by (simp add: released_def par)
  have same: "heap w2 ! q = heap w1 ! q" if "Suc ?n \<le> q" "q < ?n1" for q
  proof -
    from that have "heap w1 ! q = ?N ! (q - Suc ?n)" "q - Suc ?n < length ?N"
      by (simp_all add: h1 nth_append st(1))
    with new_objects_no_scene [of ?n "Suc ?n" ?F] have "\<not> is_scene (heap w1 ! q)"
      by (simp add: list_all_length)
    moreover have "heap w2 ! q = released (heap w1) [?g, ?sky, ?sun] q"
      using that lt by (intro o2(2)) simp_all
    ultimately show ?thesis by (simp add: released_id)
  qed
  have "take ?n1 (heap w2) = take (Suc ?n) (heap w2) @ ?N"
  proof (rule nth_equalityI)
    show "length (take ?n1 (heap w2)) = length (take (Suc ?n) (heap w2) @ ?N)"
      using o2(1) by (simp add: len)
    fix i assume "i < length (take ?n1 (heap w2))"
    then have i: "i < ?n1" by simp
    show "take ?n1 (heap w2) ! i = (take (Suc ?n) (heap w2) @ ?N) ! i"
    proof (cases "i < Suc ?n")
      case True
      with i o2(1) show ?thesis by (simp add: nth_append)
    next
      case False
      with i o2(1) same [of i] show ?thesis
        by (simp add: nth_append h1 st(1) min_def)
    qed
  qed
  then have h2: "heap w2 = take (Suc ?n) (heap w2) @ ?N @ drop ?n1 (heap w2)"
    by (metis append_take_drop_id append_assoc)
  have l2: "length (take (Suc ?n) (heap w2)) = Suc ?n"
    using o2(1) by (simp add: len)
  have "map (element_at (service w)
          (take (Suc ?n) (heap w2) @
           new_objects ?n (length (take (Suc ?n) (heap w2))) ?F @ drop ?n1 (heap w2)))
        (new_children (length (take (Suc ?n) (heap w2))) ?F) = ?F"
  proof (rule element_at_fresh)
    show "fresh_only ?F" by (rule fresh_only_fresh_elements)
    from lt(1) show "?g < length (take (Suc ?n) (heap w2))"
      unfolding l2 by simp
  qed
  then have "map (element_at (service w) (heap w2)) ?C = ?F"
    unfolding l2 by (simp only: h2 [symmetric])
  moreover have "deref (heap w2) ?n = Some (Scene None ?C)"
    using o2(1) by (simp add: deref_def scene len)
  ultimately show ?thesis
    by (simp add: scene_elements_def)
qed

subsection \<open>The example\<close>

lemma complete_input_demo: "complete_input (Some demo_mission) (Some demo_obstacles) (Some demo_telemetry)"
  by (simp add: complete_input_def demo_mission_def mission_components_def)

lemma demo_world_facts:
  "length (heap demo_world) = 16"
  "constructed demo_world"
  "ground (service demo_world) = 5"
  "skyLight (service demo_world) = 0"
  "sunLight (service demo_world) = 1"
  by (simp_all add: demo_world_def heap_initial_world constructed_initial_world
      service_initial_world)

lemma demo_world_fresh:
  "broadcasts demo_world = []"
  "scene (service demo_world) = None"
  by (simp_all add: demo_world_def initial_world_def MissionScene_def alloc_def Let_def)

lemma rebuildScene_demo:
  "rebuildScene (Some demo_mission) (Some demo_obstacles) (Some demo_telemetry) demo_world =
     (Inr (), demo_rebuilt)"
  by (simp add: demo_rebuilt_def rebuildScene_complete [OF complete_input_demo])

lemmas demo_rebuilt_facts = rebuilt [OF demo_world_facts(2) rebuildScene_demo, unfolded demo_world_facts(1)]

lemma resources_demo_world:
  "resources (service demo_world) =
     [0, 1, 2, 3, 4, 5, 6, 7, 6, 8, 6, 9, 10, 6, 11, 12, 13, 14, 6, 14, 6, 15]"
  by (simp add: demo_world_def initial_world_def MissionScene_def alloc_def Let_def
      resources_def)

subsection \<open>Markers and lines of a rebuilt scene\<close>

lemma markers_expected:
  assumes "home_pos m = Some home"
  shows "markers (expected_elements this (Some m) (Some obs) (Some tel)) =
     placed this (homePosGeometry this) (homePosMaterial this) home
       (missionComponentRadius this) home (missionComponentRadius this) #
     map (\<lambda>c. placed this (missionComponentGeometry this) (missionComponentMaterial this)
            (the c) (missionComponentRadius this) home (missionComponentRadius this))
       (mission_components m) @
     map (\<lambda>p. placed this (searchGridPtGeometry this) (searchGridPtMaterial this) p
            (searchGridPtRadius this) home (searchGridPtRadius this))
       (search_grid_points m) @
     map (\<lambda>p. placed this (missionWaypointGeometry this) (missionWaypointMaterial this) p
            (altitude_msl p) home (mission_waypoints_dist_max m))
       (mission_waypoints m) @
     map (\<lambda>ob. cylinder this ob home) (stationary_obstacles obs) @
     map (\<lambda>ob. placed this (movingObstacleGeometry this) (movingObstacleMaterial this) ob
            (altitude_msl ob) home (sphere_radius ob))
       (moving_obstacles obs) @
     map (\<lambda>t. placed this (telemetryGeometry this) (telemetryMaterial this) t
            (altitude_msl t) home (telemetryRadius this))
       tel"
  by (simp add: expected_elements_def fresh_elements_def assms mission_elements_def
      obstacle_elements_def telemetry_elements_def)

lemma polylines_expected:
  assumes "home_pos m = Some home"
  shows "polylines (expected_elements this (Some m) obstacles telemetry) =
     [(closed_loop (map (\<lambda>p. local_position this p (searchGridPtRadius this) home)
         (search_grid_points m)), searchGridPtLineMaterial this),
      (open_path (map (\<lambda>p. local_position this p (altitude_msl p) home)
         (mission_waypoints m)), missionWaypointLineMaterial this)]"
  by (simp add: expected_elements_def fresh_elements_def assms mission_elements_def
      obstacle_elements_def telemetry_elements_def)

lemma closed_loop_length: "length (closed_loop ps) = 2 * length ps"
  by (simp add: closed_loop_def pairs_length)

lemma closed_loop_nth:
  "i < length ps \<Longrightarrow> closed_loop ps ! (2 * i) = ps ! i \<and>
     closed_loop ps ! (2 * i + 1) = ps ! ((i + 1) mod length ps)"
  unfolding closed_loop_def by (rule pairs_nth)

lemma open_path_length: "length (open_path ps) = 2 * (length ps - 1)"
  by (simp add: open_path_def pairs_length)

lemma open_path_nth:
  "i + 1 < length ps \<Longrightarrow> open_path ps ! (2 * i) = ps ! i \<and>
     open_path ps ! (2 * i + 1) = ps ! (i + 1)"
  unfolding open_path_def by (rule pairs_nth) simp

lemma placed_marker:
  "castShadow (placed this g mat p alt home sc) \<and>
   receiveShadow (placed this g mat p alt home sc) \<and>
   uniform (scale (placed this g mat p alt home sc)) \<and>
   setObjectPosition this (Some \<lparr>latitude = latitude p, longitude = longitude p\<rparr>) alt
     (Some home) Vector3 = Inr (position (placed this g mat p alt home sc))"
  by (simp add: placed_def uniform_def setObjectPosition_Some local_position_def)

lemma cylinder_marker:
  "castShadow (cylinder this ob home) \<and>
   receiveShadow (cylinder this ob home) \<and>
   scale (cylinder this ob home) =
     \<lparr>x = cylinder_radius ob, y = cylinder_height ob, z = cylinder_radius ob\<rparr> \<and>
   setObjectPosition this (Some \<lparr>latitude = latitude ob, longitude = longitude ob\<rparr>)
     (cylinder_height ob / 2) (Some home) Vector3 = Inr (position (cylinder this ob home))"
  by (simp add: cylinder_def placed_def setObjectPosition_Some local_position_def)

lemma marker_positions:
  assumes "home_pos m = Some home"
  shows "map (\<lambda>mk. Inr (position mk))
        (markers (expected_elements this (Some m) (Some obs) (Some tel))) =
     map (\<lambda>(p, alt). setObjectPosition this (Some p) alt (Some home) Vector3)
        (marker_inputs this m home obs tel)"
  unfolding markers_expected [OF assms] marker_inputs_def
  by (simp add: comp_def placed_def cylinder_def setObjectPosition_Some local_position_def
      gps_def)

lemma demo_markers:
  "markers (scene_elements (service demo_rebuilt) (heap demo_rebuilt) 16) =
   markers (expected_elements (service demo_world) (Some demo_mission) (Some demo_obstacles)
     (Some demo_telemetry))"
  by (simp add: demo_rebuilt_facts(2))

lemma home_pos_demo: "home_pos demo_mission = Some demo_home"
  by (simp add: demo_mission_def)

lemma demo_cylinder:
  "length (markers (scene_elements (service demo_rebuilt) (heap demo_rebuilt) 16)) = 16"
  "markers (scene_elements (service demo_rebuilt) (heap demo_rebuilt) 16) ! 13 =
     cylinder (service demo_world)
       \<lparr>latitude = 38, longitude = - 77, cylinder_radius = 1, cylinder_height = 2\<rparr> demo_home"
  unfolding demo_markers markers_expected [OF home_pos_demo]
  by (simp_all add: nth_append demo_mission_def demo_obstacles_def demo_telemetry_def
      mission_components_def)

section \<open>The claims\<close>

subsection \<open>Coordinate conversion\<close>

lemma great_circle_quarter: "great_circle_distance r 90 0 0 0 = r * (pi / 2)"
proof -
  have "\<bar>sin (pi / 4)\<bar> = sin (pi / 4)"
    by (simp add: sin_45)
  moreover have "arcsin (sin (pi / 4)) = pi / 4"
    by (simp add: arcsin_sin)
  ultimately show ?thesis
    by (simp add: great_circle_distance_def degToRad_def Let_def)
qed

lemma great_circle_half: "great_circle_distance r 0 180 0 0 = r * pi"
  by (simp add: great_circle_distance_def degToRad_def Let_def)

lemma haversine_demo_world:
  "haversine (distance (service demo_world)) = great_circle_distance 20902231"
  by (simp add: demo_world_def service_initial_world spherical_Distance_def)

text \<open>
  Claim C1, as the code has it. For every reference position \<open>R\<close> and position \<open>P\<close>,
  \<open>setObjectPosition\<close> succeeds and sets \<open>x\<close> to the sign of the longitude difference
  times the distance measured along the reference latitude, \<open>y\<close> to the sign of the
  latitude difference times the distance measured along the reference longitude, and
  \<open>z\<close> to the altitude. So \<open>x\<close> is 0 when the longitudes agree and \<open>y\<close> is 0 when the
  latitudes agree (both when \<open>P = R\<close>), and the sign of a coordinate is the sign of the
  difference whenever the distance along that axis is positive.
\<close>

theorem setObjectPosition_local:
  "\<exists>v. setObjectPosition this (Some P) alt (Some R) objPos = Inr v \<and>
       x v = sgn (longitude P - longitude R) *
               haversine (distance this) (latitude R) (longitude P) (latitude R) (longitude R) \<and>
       y v = sgn (latitude P - latitude R) *
               haversine (distance this) (latitude P) (longitude R) (latitude R) (longitude R) \<and>
       z v = alt \<and>
       (longitude P = longitude R \<longrightarrow> x v = 0) \<and>
       (latitude P = latitude R \<longrightarrow> y v = 0) \<and>
       (0 < haversine (distance this) (latitude R) (longitude P) (latitude R) (longitude R) \<longrightarrow>
          sgn (x v) = sgn (longitude P - longitude R)) \<and>
       (0 < haversine (distance this) (latitude P) (longitude R) (latitude R) (longitude R) \<longrightarrow>
          sgn (y v) = sgn (latitude P - latitude R))"
  by (simp add: setObjectPosition_def Let_def sgn_mult)

text \<open>
  A position a quarter of the way round the sphere in both directions has both signs
  positive; the reference position itself is the origin.
\<close>

theorem setObjectPosition_local_witness:
  "0 < haversine (distance (service demo_world)) 0 180 0 0 \<and>
   0 < haversine (distance (service demo_world)) 90 0 0 0 \<and>
   (\<exists>v. setObjectPosition (service demo_world) (Some \<lparr>latitude = 90, longitude = 180\<rparr>) 7
          (Some \<lparr>latitude = 0, longitude = 0\<rparr>) Vector3 = Inr v \<and>
        sgn (x v) = 1 \<and> sgn (y v) = 1 \<and> z v = 7) \<and>
   (\<exists>v. setObjectPosition (service demo_world) (Some demo_home) 7 (Some demo_home) Vector3 =
          Inr v \<and> x v = 0 \<and> y v = 0 \<and> z v = 7)"
proof -
  have pos: "0 < haversine (distance (service demo_world)) 0 180 0 0"
    "0 < haversine (distance (service demo_world)) 90 0 0 0"
    by (simp_all add: haversine_demo_world great_circle_half great_circle_quarter)
  from pos
    setObjectPosition_local [of "service demo_world" "\<lparr>latitude = 90, longitude = 180\<rparr>" 7
      "\<lparr>latitude = 0, longitude = 0\<rparr>" Vector3]
    setObjectPosition_local [of "service demo_world" demo_home 7 demo_home Vector3]
  show ?thesis by auto
qed

text \<open>
  The claim as stated, that the sign of \<open>x\<close> is the sign of the longitude difference
  for every position, fails where the distance along the axis is 0 although the
  longitudes differ. With the reference at the north pole every longitude is the same
  point, so \<open>x\<close> is 0 while the difference is positive. The longitudes of the example
  differ by \<open>1 / 10 ^ 170\<close> degrees: for so small a difference the squared sine of half
  the difference is below the smallest positive double, so the haversine formula gives 0 in
  double-precision arithmetic as well, and the sign of \<open>x\<close> is 0 there too.
\<close>

theorem setObjectPosition_sign_counterexample:
  "setObjectPosition (service demo_world) (Some \<lparr>latitude = 90, longitude = 1 / 10 ^ 170\<rparr>) 5
     (Some \<lparr>latitude = 90, longitude = 0\<rparr>) Vector3 = Inr \<lparr>x = 0, y = 0, z = 5\<rparr> \<and>
   sgn (x \<lparr>x = 0, y = 0, z = 5\<rparr>) \<noteq>
     sgn (longitude \<lparr>latitude = 90, longitude = 1 / 10 ^ 170\<rparr> -
          longitude \<lparr>latitude = 90, longitude = 0\<rparr>)"
  by (simp add: setObjectPosition_def haversine_demo_world Vector3_def
      great_circle_distance_def degToRad_def)

subsection \<open>A mission without a home position\<close>

text \<open>
  Claim C2. When the mission is absent, or is present without a home position, a call
  of \<open>rebuildScene\<close> on a constructed service succeeds, whatever the obstacles and the
  telemetry are, and the scene it stores has exactly three children: the ground mesh,
  the hemisphere light and the directional light, in this order. It has no marker and
  no line, and it is in no other object.
\<close>

theorem rebuildScene_without_home:
  assumes "constructed w"
    and "mission = None \<or> (\<exists>m. mission = Some m \<and> home_pos m = None)"
    and "rebuildScene mission obstacles telemetry w = (r, w')"
  shows "r = Inr () \<and>
    (\<exists>s. scene (service w') = Some s \<and>
         deref (heap w') s =
           Some (Scene None
                   [ground (service w'), skyLight (service w'), sunLight (service w')]) \<and>
         markers (scene_elements (service w') (heap w') s) = [] \<and>
         polylines (scene_elements (service w') (heap w') s) = []) \<and>
    is_mesh (deref (heap w') (ground (service w'))) \<and>
    is_hemisphere_light (deref (heap w') (skyLight (service w'))) \<and>
    is_directional_light (deref (heap w') (sunLight (service w')))"
proof -
  from assms(2) have ci: "complete_input mission obstacles telemetry"
    by (auto simp: complete_input_def)
  from assms(2) have F: "fresh_elements (service w) mission obstacles telemetry = []"
    by (auto simp: fresh_elements_def)
  then have E: "expected_elements (service w) mission obstacles telemetry =
      [Shared (ground (service w)), Shared (skyLight (service w)), Shared (sunLight (service w))]"
    by (simp add: expected_elements_def)
  from assms(3) have r: "r = fst (rebuildScene mission obstacles telemetry w)"
    and w': "w' = snd (rebuildScene mission obstacles telemetry w)" by simp_all
  note c = rebuildScene_complete [OF ci, of w]
  have 1: "r = Inr ()"
    unfolding r by (simp add: c)
  from rebuildScene_objects(7) [OF assms(1,3)] 1
  have h: "heap w' ! length (heap w) =
      Scene None [ground (service w), skyLight (service w), sunLight (service w)]"
    by (auto simp: F)
  note len = rebuildScene_objects(1) [OF assms(1,3)]
  have s: "service w' = (service w)\<lparr>scene := Some (length (heap w))\<rparr>"
    unfolding w' by (simp add: c)
  from assms(3) 1 have "rebuildScene mission obstacles telemetry w = (Inr (), w')" by simp
  note rb = rebuilt(2) [OF assms(1) this]
  have 2: "deref (heap w') (length (heap w)) =
           Some (Scene None
                   [ground (service w'), skyLight (service w'), sunLight (service w')])"
    using len by (simp add: h s deref_def)
  have 3: "markers (scene_elements (service w') (heap w') (length (heap w))) = []"
    "polylines (scene_elements (service w') (heap w') (length (heap w))) = []"
    by (simp_all add: rb E)
  from constructed_rebuildScene [OF assms(1,3)]
  have 4: "is_mesh (deref (heap w') (ground (service w')))"
    "is_hemisphere_light (deref (heap w') (skyLight (service w')))"
    "is_directional_light (deref (heap w') (sunLight (service w')))"
    by (simp_all add: constructed_def)
  have "scene (service w') = Some (length (heap w))" by (simp add: s)
  with 1 2 3 4 show ?thesis by blast
qed

text \<open>The example mission with its home position removed, and neither obstacles nor telemetry.\<close>

theorem rebuildScene_without_home_witness:
  "constructed demo_world \<and>
   home_pos (demo_mission\<lparr>home_pos := None\<rparr>) = None \<and>
   fst (rebuildScene (Some (demo_mission\<lparr>home_pos := None\<rparr>)) None None demo_world) = Inr () \<and>
   scene (service (snd (rebuildScene (Some (demo_mission\<lparr>home_pos := None\<rparr>)) None None
      demo_world))) = Some 16 \<and>
   deref (heap (snd (rebuildScene (Some (demo_mission\<lparr>home_pos := None\<rparr>)) None None
      demo_world))) 16 = Some (Scene None [5, 0, 1])"
proof -
  let ?m = "Some (demo_mission\<lparr>home_pos := None\<rparr>)"
  let ?r = "fst (rebuildScene ?m None None demo_world)"
  let ?w = "snd (rebuildScene ?m None None demo_world)"
  have run: "rebuildScene ?m None None demo_world = (?r, ?w)" by simp
  have home: "?m = None \<or> (\<exists>m. ?m = Some m \<and> home_pos m = None)" by simp
  note c2 = rebuildScene_without_home [OF demo_world_facts(2) home run]
  from c2 have r: "?r = Inr ()" by (rule conjunct1)
  with run have ok: "rebuildScene ?m None None demo_world = (Inr (), ?w)"
    by (simp only:)
  note rb = rebuilt(1,3) [OF demo_world_facts(2) ok, unfolded demo_world_facts(1)]
  from c2 obtain s where s: "scene (service ?w) = Some s"
    and d: "deref (heap ?w) s = Some (Scene None [ground (service ?w), skyLight (service ?w),
       sunLight (service ?w)])"
    by blast
  from s rb(1) have "s = 16" by simp
  moreover have "ground (service ?w) = 5" "skyLight (service ?w) = 0" "sunLight (service ?w) = 1"
    by (simp_all add: rb(2) demo_world_facts)
  ultimately have "deref (heap ?w) 16 = Some (Scene None [5, 0, 1])"
    using d by simp
  with r rb(1) demo_world_facts(2) show ?thesis by simp
qed

subsection \<open>The notification\<close>

text \<open>
  Claim C3. A call of \<open>rebuildScene\<close> that succeeds appends exactly one event,
  \<^verbatim>\<open>MissionScene.sceneUpdated\<close>, to what the root scope has broadcast; the scene a
  listener reads from the service at that moment is the scene the field holds after the
  call, and it is a scene object that did not exist before the call.
\<close>

theorem rebuildScene_notifies_once:
  assumes "rebuildScene mission obstacles telemetry w = (Inr u, w')"
  shows "\<exists>s cs. deref (heap w) s = None \<and> deref (heap w') s = Some (Scene None cs) \<and>
           scene (service w') = Some s \<and>
           broadcasts w' = broadcasts w @
             [\<lparr>event_name = ''MissionScene.sceneUpdated'', observed_scene = Some s\<rparr>]"
proof -
  from assms have w': "w' = snd (rebuildScene mission obstacles telemetry w)" by simp
  note c = rebuildScene_complete [OF rebuildScene_Inr [OF assms], of w]
  have "deref (heap w) (length (heap w)) = None"
    by (simp add: deref_def)
  moreover from rebuilt_scene [OF assms]
  obtain cs where "deref (heap w') (length (heap w)) = Some (Scene None cs)" ..
  moreover have "scene (service w') = Some (length (heap w))"
    unfolding w' by (simp add: c)
  moreover have "broadcasts w' = broadcasts w @
      [\<lparr>event_name = ''MissionScene.sceneUpdated'', observed_scene = Some (length (heap w))\<rparr>]"
    unfolding w' by (simp add: c)
  ultimately show ?thesis by blast
qed

text \<open>The first rebuild of the example: one event, and it shows the new scene, object 16.\<close>

theorem rebuildScene_notifies_once_witness:
  "fst (rebuildScene (Some demo_mission) (Some demo_obstacles) (Some demo_telemetry) demo_world) =
     Inr () \<and>
   broadcasts demo_world = [] \<and>
   scene (service demo_rebuilt) = Some 16 \<and>
   broadcasts demo_rebuilt =
     [\<lparr>event_name = ''MissionScene.sceneUpdated'', observed_scene = Some 16\<rparr>]"
proof -
  from rebuildScene_notifies_once [OF rebuildScene_demo] obtain s where s: "scene (service demo_rebuilt) = Some s"
    and b: "broadcasts demo_rebuilt = broadcasts demo_world @
             [\<lparr>event_name = ''MissionScene.sceneUpdated'', observed_scene = Some s\<rparr>]"
    by blast
  from s demo_rebuilt_facts(1) have "s = 16" by simp
  with s b show ?thesis
    by (simp add: rebuildScene_demo demo_world_fresh(1))
qed

subsection \<open>Absent inputs\<close>

text \<open>
  Claim C4, as the code has it. A call of \<open>rebuildScene\<close> succeeds exactly when the
  mission is absent, or has no home position, or has a home position and all six of
  its component positions, and obstacles and telemetry are both present. Every other
  call ends in a \<^verbatim>\<open>TypeError\<close>.
\<close>

theorem rebuildScene_completes_iff:
  "(fst (rebuildScene mission obstacles telemetry w) = Inr () \<longleftrightarrow>
      mission = None \<or>
      (\<exists>m. mission = Some m \<and>
         (home_pos m = None \<or>
          list_all (\<lambda>c. c \<noteq> None) (mission_components m) \<and>
          obstacles \<noteq> None \<and> telemetry \<noteq> None))) \<and>
   (fst (rebuildScene mission obstacles telemetry w) \<noteq> Inr () \<longrightarrow>
      fst (rebuildScene mission obstacles telemetry w) = Inl TypeError)"
proof -
  have c: "complete_input mission obstacles telemetry \<longleftrightarrow>
      mission = None \<or>
      (\<exists>m. mission = Some m \<and>
         (home_pos m = None \<or>
          list_all (\<lambda>c. c \<noteq> None) (mission_components m) \<and>
          obstacles \<noteq> None \<and> telemetry \<noteq> None))"
    by (auto simp: complete_input_def split: option.splits)
  show ?thesis
  proof (cases "complete_input mission obstacles telemetry")
    case True
    then have "fst (rebuildScene mission obstacles telemetry w) = Inr ()"
      by (simp add: rebuildScene_complete)
    with True c show ?thesis by simp
  next
    case False
    from rebuildScene_incomplete [OF False, of w]
    have "fst (rebuildScene mission obstacles telemetry w) = Inl TypeError"
      by (elim exE conjE) simp
    with False c show ?thesis by simp
  qed
qed

text \<open>
  No mission, and a mission without a home position, succeed with neither obstacles nor
  telemetry; the example succeeds; the example without telemetry throws.
\<close>

theorem rebuildScene_completes_iff_witness:
  "fst (rebuildScene None None None demo_world) = Inr () \<and>
   fst (rebuildScene (Some (demo_mission\<lparr>home_pos := None\<rparr>)) None None demo_world) = Inr () \<and>
   fst (rebuildScene (Some demo_mission) (Some demo_obstacles) (Some demo_telemetry) demo_world) =
     Inr () \<and>
   fst (rebuildScene (Some demo_mission) (Some demo_obstacles) None demo_world) = Inl TypeError"
proof -
  have "list_all (\<lambda>c. c \<noteq> None) (mission_components demo_mission)"
    by (simp add: demo_mission_def mission_components_def)
  then show ?thesis
    using rebuildScene_completes_iff [of None None None demo_world]
      rebuildScene_completes_iff [of "Some (demo_mission\<lparr>home_pos := None\<rparr>)" None None demo_world]
      rebuildScene_completes_iff [of "Some demo_mission" "Some demo_obstacles" "Some demo_telemetry" demo_world]
      rebuildScene_completes_iff [of "Some demo_mission" "Some demo_obstacles" None demo_world]
    by (simp add: demo_mission_def)
qed

text \<open>
  The claim as stated, that no combination of absent inputs makes the call fail, does
  not hold: the example mission, which has a home position, with absent obstacles.
\<close>

theorem rebuildScene_null_obstacles_counterexample:
  "fst (rebuildScene (Some demo_mission) None (Some demo_telemetry) demo_world) = Inl TypeError"
proof -
  have "\<not> complete_input (Some demo_mission) None (Some demo_telemetry)"
    by (simp add: complete_input_def demo_mission_def)
  from rebuildScene_incomplete [OF this, of demo_world] show ?thesis
    by (elim exE conjE) simp
qed

subsection \<open>Markers\<close>

text \<open>
  Claim C5, as the code has it. The markers of a scene are the meshes among its
  children other than the ground; a scene has markers only when the mission has a home
  position, and then obstacles and telemetry are present. In the order they were added
  they are the home position, the six mission components, the search-grid points and
  the waypoints (\<open>a\<close> markers), then the stationary obstacles, the moving obstacles and
  the telemetry. The position of each marker is what \<open>setObjectPosition\<close> computes, relative
  to the home position, for the position and the altitude of the input it stands for
  (\<open>marker_inputs\<close> lists them in the same order), and every marker casts and receives
  shadows. Every marker is scaled by the same factor on the three axes, except the
  markers of the stationary obstacles: their scale is the radius, the height and the
  radius of the cylinder.
\<close>

theorem rebuildScene_markers:
  assumes "constructed w"
    and "home_pos m = Some home"
    and "rebuildScene (Some m) (Some obs) (Some tel) w = (Inr u, w')"
    and "scene (service w') = Some s"
    and "mks = markers (scene_elements (service w') (heap w') s)"
    and "a = 7 + length (search_grid_points m) + length (mission_waypoints m)"
  shows "length mks =
      a + length (stationary_obstacles obs) + length (moving_obstacles obs) + length tel \<and>
    map (\<lambda>mk. Inr (position mk)) mks =
      map (\<lambda>(p, alt). setObjectPosition (service w) (Some p) alt (Some home) Vector3)
        (marker_inputs (service w) m home obs tel) \<and>
    (\<forall>k < length mks. castShadow (mks ! k) \<and> receiveShadow (mks ! k)) \<and>
    (\<forall>k < length mks.
       k < a \<or> a + length (stationary_obstacles obs) \<le> k \<longrightarrow> uniform (scale (mks ! k))) \<and>
    (\<forall>j < length (stationary_obstacles obs).
       scale (mks ! (a + j)) =
         \<lparr>x = cylinder_radius (stationary_obstacles obs ! j),
          y = cylinder_height (stationary_obstacles obs ! j),
          z = cylinder_radius (stationary_obstacles obs ! j)\<rparr>)"
proof -
  let ?svc = "service w"
  define A where "A =
     placed ?svc (homePosGeometry ?svc) (homePosMaterial ?svc) home
       (missionComponentRadius ?svc) home (missionComponentRadius ?svc) #
     map (\<lambda>c. placed ?svc (missionComponentGeometry ?svc) (missionComponentMaterial ?svc)
            (the c) (missionComponentRadius ?svc) home (missionComponentRadius ?svc))
       (mission_components m) @
     map (\<lambda>p. placed ?svc (searchGridPtGeometry ?svc) (searchGridPtMaterial ?svc) p
            (searchGridPtRadius ?svc) home (searchGridPtRadius ?svc))
       (search_grid_points m) @
     map (\<lambda>p. placed ?svc (missionWaypointGeometry ?svc) (missionWaypointMaterial ?svc) p
            (altitude_msl p) home (mission_waypoints_dist_max m))
       (mission_waypoints m)"
  define B where "B = map (\<lambda>ob. cylinder ?svc ob home) (stationary_obstacles obs)"
  define C where "C =
     map (\<lambda>ob. placed ?svc (movingObstacleGeometry ?svc) (movingObstacleMaterial ?svc) ob
            (altitude_msl ob) home (sphere_radius ob))
       (moving_obstacles obs) @
     map (\<lambda>t. placed ?svc (telemetryGeometry ?svc) (telemetryMaterial ?svc) t
            (altitude_msl t) home (telemetryRadius ?svc))
       tel"
  note rb = rebuilt(1,2) [OF assms(1,3)]
  from rb(1) assms(4) have s: "s = length (heap w)" by simp
  have mks: "mks = A @ B @ C"
    unfolding assms(5) s rb(2) markers_expected [OF assms(2)] A_def B_def C_def by simp
  have 0: "map (\<lambda>mk. Inr (position mk)) mks =
      map (\<lambda>(p, alt). setObjectPosition ?svc (Some p) alt (Some home) Vector3)
        (marker_inputs ?svc m home obs tel)"
    unfolding assms(5) s rb(2) by (rule marker_positions [OF assms(2)])
  have lenA: "length A = a"
    by (simp add: A_def assms(6) mission_components_def)
  have lenB: "length B = length (stationary_obstacles obs)"
    by (simp add: B_def)
  have lenC: "length C = length (moving_obstacles obs) + length tel"
    by (simp add: C_def)
  let ?placed = "\<lambda>mk. castShadow mk \<and> receiveShadow mk"
  have pA: "?placed mk \<and> uniform (scale mk)" if "mk \<in> set A" for mk
  proof -
    from that consider
        (gps) g mat alt sc and p :: gps_position where "mk = placed ?svc g mat p alt home sc"
      | (aerial) g mat alt sc and p :: aerial_position where "mk = placed ?svc g mat p alt home sc"
      unfolding A_def by auto
    then show ?thesis
    proof cases
      case gps
      with placed_marker [of ?svc g mat p alt home sc] show ?thesis by blast
    next
      case aerial
      with placed_marker [of ?svc g mat p alt home sc] show ?thesis by blast
    qed
  qed
  have pC: "?placed mk \<and> uniform (scale mk)" if "mk \<in> set C" for mk
  proof -
    from that consider
        (aerial) g mat alt sc and p :: aerial_position where "mk = placed ?svc g mat p alt home sc"
      | (moving) g mat alt sc and p :: moving_obstacle where "mk = placed ?svc g mat p alt home sc"
      unfolding C_def by auto
    then show ?thesis
    proof cases
      case aerial
      with placed_marker [of ?svc g mat p alt home sc] show ?thesis by blast
    next
      case moving
      with placed_marker [of ?svc g mat p alt home sc] show ?thesis by blast
    qed
  qed
  have pB: "?placed (B ! j) \<and>
      scale (B ! j) =
         \<lparr>x = cylinder_radius (stationary_obstacles obs ! j),
          y = cylinder_height (stationary_obstacles obs ! j),
          z = cylinder_radius (stationary_obstacles obs ! j)\<rparr>"
    if "j < length (stationary_obstacles obs)" for j
    using that cylinder_marker [of ?svc "stationary_obstacles obs ! j" home]
    unfolding B_def by (simp only: nth_map)
  have 1: "length mks =
      a + length (stationary_obstacles obs) + length (moving_obstacles obs) + length tel"
    by (simp add: mks lenA lenB lenC)
  have 2: "?placed (mks ! k)" if "k < length mks" for k
  proof -
    consider "k < a" | "a \<le> k" "k < a + length B" | "a + length B \<le> k" by linarith
    then show ?thesis
    proof cases
      case 1
      then have "mks ! k = A ! k" "A ! k \<in> set A"
        by (simp_all add: mks nth_append lenA)
      with pA show ?thesis by simp
    next
      case 2
      then have "mks ! k = B ! (k - a)" "k - a < length (stationary_obstacles obs)"
        by (simp_all add: mks nth_append lenA lenB)
      with pB show ?thesis by simp
    next
      case 3
      with that have "mks ! k = C ! (k - a - length B)" "k - a - length B < length C"
        by (auto simp: mks nth_append lenA)
      then have "mks ! k \<in> set C" by simp
      with pC show ?thesis by blast
    qed
  qed
  have 3: "uniform (scale (mks ! k))"
    if "k < length mks" "k < a \<or> a + length (stationary_obstacles obs) \<le> k" for k
    using that(2)
  proof
    assume "k < a"
    then have "mks ! k = A ! k" "A ! k \<in> set A"
      by (simp_all add: mks nth_append lenA)
    with pA show ?thesis by simp
  next
    assume "a + length (stationary_obstacles obs) \<le> k"
    with that(1) have "mks ! k = C ! (k - a - length B)" "k - a - length B < length C"
      by (auto simp: mks nth_append lenA lenB)
    then have "mks ! k \<in> set C" by simp
    with pC show ?thesis by blast
  qed
  have 4: "scale (mks ! (a + j)) =
         \<lparr>x = cylinder_radius (stationary_obstacles obs ! j),
          y = cylinder_height (stationary_obstacles obs ! j),
          z = cylinder_radius (stationary_obstacles obs ! j)\<rparr>"
    if "j < length (stationary_obstacles obs)" for j
  proof -
    from that have "mks ! (a + j) = B ! j"
      by (simp add: mks nth_append lenA lenB)
    with pB [OF that] show ?thesis by simp
  qed
  from 2 have all2: "\<forall>k < length mks. castShadow (mks ! k) \<and> receiveShadow (mks ! k)"
    by simp
  from 3 have all3: "\<forall>k < length mks.
       k < a \<or> a + length (stationary_obstacles obs) \<le> k \<longrightarrow> uniform (scale (mks ! k))"
    by simp
  from 4 have all4: "\<forall>j < length (stationary_obstacles obs).
       scale (mks ! (a + j)) =
         \<lparr>x = cylinder_radius (stationary_obstacles obs ! j),
          y = cylinder_height (stationary_obstacles obs ! j),
          z = cylinder_radius (stationary_obstacles obs ! j)\<rparr>"
    by simp
  from 1 0 all2 all3 all4 show ?thesis by (intro conjI)
qed

text \<open>
  The rebuilt example has sixteen markers. Marker 13 is the stationary obstacle, a
  cylinder of height 2 one degree west of the home position: it sits at half its height,
  west of the origin, with scale (1, 2, 1). Its neighbours, the last waypoint and the
  moving obstacle, are uniformly scaled.
\<close>

theorem rebuildScene_markers_witness:
  "constructed demo_world \<and> home_pos demo_mission = Some demo_home \<and>
   scene (service demo_rebuilt) = Some 16 \<and>
   length (markers (scene_elements (service demo_rebuilt) (heap demo_rebuilt) 16)) = 16 \<and>
   castShadow (markers (scene_elements (service demo_rebuilt) (heap demo_rebuilt) 16) ! 13) \<and>
   receiveShadow (markers (scene_elements (service demo_rebuilt) (heap demo_rebuilt) 16) ! 13) \<and>
   position (markers (scene_elements (service demo_rebuilt) (heap demo_rebuilt) 16) ! 13) =
     \<lparr>x = - great_circle_distance 20902231 38 (- 77) 38 (- 76), y = 0, z = 1\<rparr> \<and>
   scale (markers (scene_elements (service demo_rebuilt) (heap demo_rebuilt) 16) ! 13) =
     \<lparr>x = 1, y = 2, z = 1\<rparr> \<and>
   uniform (scale (markers (scene_elements (service demo_rebuilt) (heap demo_rebuilt) 16) ! 12)) \<and>
   uniform (scale (markers (scene_elements (service demo_rebuilt) (heap demo_rebuilt) 16) ! 14))"
proof -
  let ?mks = "markers (scene_elements (service demo_rebuilt) (heap demo_rebuilt) 16)"
  let ?inputs = "marker_inputs (service demo_world) demo_mission demo_home demo_obstacles
      demo_telemetry"
  let ?place = "\<lambda>(p, alt). setObjectPosition (service demo_world) (Some (p :: gps_position))
      alt (Some demo_home) Vector3"
  have a: "(13 :: nat) = 7 + length (search_grid_points demo_mission) +
      length (mission_waypoints demo_mission)"
    by (simp add: demo_mission_def)
  have st: "stationary_obstacles demo_obstacles =
      [\<lparr>latitude = 38, longitude = - 77, cylinder_radius = 1, cylinder_height = 2\<rparr>]"
    by (simp add: demo_obstacles_def)
  have sizes: "length (moving_obstacles demo_obstacles) = 1" "length demo_telemetry = 1"
    by (simp_all add: demo_obstacles_def demo_telemetry_def)
  have inputs: "length ?inputs = 16" "?inputs ! 13 = (\<lparr>latitude = 38, longitude = - 77\<rparr>, 1)"
    by (simp_all add: marker_inputs_def mission_components_def demo_mission_def
        demo_obstacles_def demo_telemetry_def gps_def nth_append)
  note c5 = rebuildScene_markers [OF demo_world_facts(2) home_pos_demo rebuildScene_demo
      demo_rebuilt_facts(1) refl a]
  from c5 have len: "length ?mks = 16" by (simp add: st sizes)
  from c5 have pos: "map (\<lambda>mk. Inr (position mk)) ?mks = map ?place ?inputs"
    by (elim conjE)
  from c5 have shadows: "\<forall>k < length ?mks. castShadow (?mks ! k) \<and> receiveShadow (?mks ! k)"
    by (elim conjE)
  from c5 have uni: "\<forall>k < length ?mks.
       k < 13 \<or> 13 + length (stationary_obstacles demo_obstacles) \<le> k \<longrightarrow>
       uniform (scale (?mks ! k))"
    by (elim conjE)
  from c5 have cyl: "\<forall>j < length (stationary_obstacles demo_obstacles).
       scale (?mks ! (13 + j)) =
         \<lparr>x = cylinder_radius (stationary_obstacles demo_obstacles ! j),
          y = cylinder_height (stationary_obstacles demo_obstacles ! j),
          z = cylinder_radius (stationary_obstacles demo_obstacles ! j)\<rparr>"
    by (elim conjE)
  from shadows [rule_format, of 13] len
  have 1: "castShadow (?mks ! 13)" "receiveShadow (?mks ! 13)"
    by simp_all
  have "map (\<lambda>mk. Inr (position mk)) ?mks ! 13 = map ?place ?inputs ! 13"
    by (simp only: pos)
  with len inputs have "(Inr (position (?mks ! 13)) :: js_error + vector3) =
      setObjectPosition (service demo_world) (Some \<lparr>latitude = 38, longitude = - 77\<rparr>) 1
        (Some demo_home) Vector3"
    by simp
  then have 4: "position (?mks ! 13) =
      \<lparr>x = - great_circle_distance 20902231 38 (- 77) 38 (- 76), y = 0, z = 1\<rparr>"
    by (simp add: setObjectPosition_def haversine_demo_world demo_home_def Vector3_def)
  from cyl [rule_format, of 0] have 2: "scale (?mks ! 13) = \<lparr>x = 1, y = 2, z = 1\<rparr>"
    by (simp add: st)
  from uni [rule_format, of 12] uni [rule_format, of 14] len
  have 3: "uniform (scale (?mks ! 12))" "uniform (scale (?mks ! 14))"
    by (simp_all add: st)
  from demo_world_facts(2) home_pos_demo demo_rebuilt_facts(1) len 1 4 2 3 show ?thesis
    by (intro conjI)
qed

text \<open>
  The claim as stated, that every marker is uniformly scaled, stationary obstacles
  included, does not hold: the stationary obstacle of the example has radius 1 and
  height 2, and its marker has scale (1, 2, 1).
\<close>

theorem stationary_obstacle_scale_counterexample:
  "scene (service demo_rebuilt) = Some 16 \<and>
   scale (markers (scene_elements (service demo_rebuilt) (heap demo_rebuilt) 16) ! 13) =
     \<lparr>x = 1, y = 2, z = 1\<rparr> \<and>
   \<not> uniform (scale (markers (scene_elements (service demo_rebuilt) (heap demo_rebuilt) 16) ! 13))"
  by (simp add: demo_rebuilt_facts(1) demo_cylinder(2) cylinder_marker uniform_def)

subsection \<open>Connecting lines\<close>

text \<open>
  Claim C6. For a mission with a home position and \<open>N\<close> search-grid points, the first
  line of the rebuilt scene has the search-grid line material and \<open>2 * N\<close> vertices,
  that is \<open>N\<close> segments: vertices \<open>2 * i\<close> and \<open>2 * i + 1\<close> are the local positions of grid
  point \<open>i\<close> and of grid point \<open>(i + 1) mod N\<close>, so the last segment goes back to the
  first point.
\<close>

theorem search_grid_closed_loop:
  assumes "constructed w"
    and "mission = Some m" and "home_pos m = Some home"
    and "rebuildScene mission obstacles telemetry w = (Inr u, w')"
    and "scene (service w') = Some s"
  shows "\<exists>vs others.
    polylines (scene_elements (service w') (heap w') s) =
      (vs, searchGridPtLineMaterial (service w)) # others \<and>
    length vs = 2 * length (search_grid_points m) \<and>
    (\<forall>i < length (search_grid_points m).
       setObjectPosition (service w) (Some (search_grid_points m ! i))
         (searchGridPtRadius (service w)) (Some home) Vector3 = Inr (vs ! (2 * i)) \<and>
       setObjectPosition (service w)
         (Some (search_grid_points m ! ((i + 1) mod length (search_grid_points m))))
         (searchGridPtRadius (service w)) (Some home) Vector3 = Inr (vs ! (2 * i + 1)))"
proof -
  let ?svc = "service w"
  let ?pts = "search_grid_points m"
  let ?ps = "map (\<lambda>p. local_position ?svc p (searchGridPtRadius ?svc) home) ?pts"
  note rb = rebuilt(1,2) [OF assms(1,4)]
  from rb(1) assms(5) have s: "s = length (heap w)" by simp
  have p: "polylines (scene_elements (service w') (heap w') s) =
      [(closed_loop ?ps, searchGridPtLineMaterial ?svc),
       (open_path (map (\<lambda>p. local_position ?svc p (altitude_msl p) home)
         (mission_waypoints m)), missionWaypointLineMaterial ?svc)]"
    unfolding s rb(2) assms(2) by (rule polylines_expected [OF assms(3)])
  have len: "length (closed_loop ?ps) = 2 * length ?pts"
    by (simp add: closed_loop_length)
  have seg: "setObjectPosition ?svc (Some (?pts ! i)) (searchGridPtRadius ?svc) (Some home)
        Vector3 = Inr (closed_loop ?ps ! (2 * i)) \<and>
      setObjectPosition ?svc (Some (?pts ! ((i + 1) mod length ?pts)))
        (searchGridPtRadius ?svc) (Some home) Vector3 = Inr (closed_loop ?ps ! (2 * i + 1))"
    if "i < length ?pts" for i
  proof -
    from that have j: "(i + 1) mod length ?pts < length ?pts"
      by (intro mod_less_divisor) auto
    from that have "i < length ?ps" by simp
    from closed_loop_nth [OF this] that j show ?thesis
      by (simp add: setObjectPosition_Some)
  qed
  from p len seg show ?thesis by blast
qed

text \<open>The example has three grid points; its third segment runs from the last to the first.\<close>

theorem search_grid_closed_loop_witness:
  "constructed demo_world \<and> home_pos demo_mission = Some demo_home \<and>
   length (search_grid_points demo_mission) = 3 \<and>
   (\<exists>vs others.
      polylines (scene_elements (service demo_rebuilt) (heap demo_rebuilt) 16) =
        (vs, searchGridPtLineMaterial (service demo_world)) # others \<and>
      length vs = 6 \<and>
      setObjectPosition (service demo_world) (Some \<lparr>latitude = 39, longitude = - 75\<rparr>)
        (searchGridPtRadius (service demo_world)) (Some demo_home) Vector3 = Inr (vs ! 4) \<and>
      setObjectPosition (service demo_world) (Some \<lparr>latitude = 38, longitude = - 76\<rparr>)
        (searchGridPtRadius (service demo_world)) (Some demo_home) Vector3 = Inr (vs ! 5))"
proof -
  have pts: "search_grid_points demo_mission =
      [\<lparr>latitude = 38, longitude = - 76\<rparr>, \<lparr>latitude = 39, longitude = - 76\<rparr>,
       \<lparr>latitude = 39, longitude = - 75\<rparr>]"
    by (simp add: demo_mission_def)
  from search_grid_closed_loop [OF demo_world_facts(2) refl home_pos_demo rebuildScene_demo demo_rebuilt_facts(1)]
  obtain vs others where p: "polylines (scene_elements (service demo_rebuilt)
        (heap demo_rebuilt) 16) = (vs, searchGridPtLineMaterial (service demo_world)) # others"
    and len: "length vs = 2 * length (search_grid_points demo_mission)"
    and seg: "\<forall>i < length (search_grid_points demo_mission).
       setObjectPosition (service demo_world) (Some (search_grid_points demo_mission ! i))
         (searchGridPtRadius (service demo_world)) (Some demo_home) Vector3 =
         Inr (vs ! (2 * i)) \<and>
       setObjectPosition (service demo_world)
         (Some (search_grid_points demo_mission !
            ((i + 1) mod length (search_grid_points demo_mission))))
         (searchGridPtRadius (service demo_world)) (Some demo_home) Vector3 =
         Inr (vs ! (2 * i + 1))"
    by blast
  from seg [rule_format, of 2] have
    "setObjectPosition (service demo_world) (Some \<lparr>latitude = 39, longitude = - 75\<rparr>)
        (searchGridPtRadius (service demo_world)) (Some demo_home) Vector3 = Inr (vs ! 4)"
    "setObjectPosition (service demo_world) (Some \<lparr>latitude = 38, longitude = - 76\<rparr>)
        (searchGridPtRadius (service demo_world)) (Some demo_home) Vector3 = Inr (vs ! 5)"
    by (simp_all add: pts)
  moreover from len have "length vs = 6" by (simp add: pts)
  ultimately show ?thesis
    using p demo_world_facts(2) home_pos_demo pts by auto
qed

text \<open>
  Claim C7. For a mission with a home position and \<open>N\<close> waypoints, the second and last
  line of the rebuilt scene has the waypoint line material and \<open>2 * (N - 1)\<close> vertices,
  that is \<open>N - 1\<close> segments: vertices \<open>2 * i\<close> and \<open>2 * i + 1\<close> are the local positions of
  waypoint \<open>i\<close> and of waypoint \<open>i + 1\<close>, for every \<open>i\<close> with \<open>i + 1 < N\<close>. No segment
  starts at the last waypoint.
\<close>

theorem waypoints_open_path:
  assumes "constructed w"
    and "mission = Some m" and "home_pos m = Some home"
    and "rebuildScene mission obstacles telemetry w = (Inr u, w')"
    and "scene (service w') = Some s"
  shows "\<exists>vs grid.
    polylines (scene_elements (service w') (heap w') s) =
      [grid, (vs, missionWaypointLineMaterial (service w))] \<and>
    length vs = 2 * (length (mission_waypoints m) - 1) \<and>
    (\<forall>i. i + 1 < length (mission_waypoints m) \<longrightarrow>
       setObjectPosition (service w) (Some (mission_waypoints m ! i))
         (altitude_msl (mission_waypoints m ! i)) (Some home) Vector3 = Inr (vs ! (2 * i)) \<and>
       setObjectPosition (service w) (Some (mission_waypoints m ! (i + 1)))
         (altitude_msl (mission_waypoints m ! (i + 1))) (Some home) Vector3 =
         Inr (vs ! (2 * i + 1)))"
proof -
  let ?svc = "service w"
  let ?pts = "mission_waypoints m"
  let ?ps = "map (\<lambda>p. local_position ?svc p (altitude_msl p) home) ?pts"
  note rb = rebuilt(1,2) [OF assms(1,4)]
  from rb(1) assms(5) have s: "s = length (heap w)" by simp
  have p: "polylines (scene_elements (service w') (heap w') s) =
      [(closed_loop (map (\<lambda>p. local_position ?svc p (searchGridPtRadius ?svc) home)
         (search_grid_points m)), searchGridPtLineMaterial ?svc),
       (open_path ?ps, missionWaypointLineMaterial ?svc)]"
    unfolding s rb(2) assms(2) by (rule polylines_expected [OF assms(3)])
  have len: "length (open_path ?ps) = 2 * (length ?pts - 1)"
    by (simp add: open_path_length)
  have seg: "setObjectPosition ?svc (Some (?pts ! i)) (altitude_msl (?pts ! i)) (Some home)
        Vector3 = Inr (open_path ?ps ! (2 * i)) \<and>
      setObjectPosition ?svc (Some (?pts ! (i + 1))) (altitude_msl (?pts ! (i + 1)))
        (Some home) Vector3 = Inr (open_path ?ps ! (2 * i + 1))"
    if "i + 1 < length ?pts" for i
  proof -
    from that have "i + 1 < length ?ps" by simp
    from open_path_nth [OF this] that show ?thesis
      by (simp add: setObjectPosition_Some)
  qed
  from p len seg show ?thesis by blast
qed

text \<open>The example has three waypoints and two segments; the second ends at the last waypoint.\<close>

theorem waypoints_open_path_witness:
  "constructed demo_world \<and> home_pos demo_mission = Some demo_home \<and>
   length (mission_waypoints demo_mission) = 3 \<and>
   (\<exists>vs grid.
      polylines (scene_elements (service demo_rebuilt) (heap demo_rebuilt) 16) =
        [grid, (vs, missionWaypointLineMaterial (service demo_world))] \<and>
      length vs = 4 \<and>
      setObjectPosition (service demo_world)
        (Some \<lparr>latitude = 38, longitude = - 75, altitude_msl = 200\<rparr>) 200
        (Some demo_home) Vector3 = Inr (vs ! 2) \<and>
      setObjectPosition (service demo_world)
        (Some \<lparr>latitude = 37, longitude = - 75, altitude_msl = 300\<rparr>) 300
        (Some demo_home) Vector3 = Inr (vs ! 3))"
proof -
  have pts: "mission_waypoints demo_mission =
        [\<lparr>latitude = 38, longitude = - 76, altitude_msl = 100\<rparr>,
         \<lparr>latitude = 38, longitude = - 75, altitude_msl = 200\<rparr>,
         \<lparr>latitude = 37, longitude = - 75, altitude_msl = 300\<rparr>]"
    by (simp add: demo_mission_def)
  from waypoints_open_path [OF demo_world_facts(2) refl home_pos_demo rebuildScene_demo demo_rebuilt_facts(1)]
  obtain vs grid where p: "polylines (scene_elements (service demo_rebuilt)
        (heap demo_rebuilt) 16) = [grid, (vs, missionWaypointLineMaterial (service demo_world))]"
    and len: "length vs = 2 * (length (mission_waypoints demo_mission) - 1)"
    and seg: "\<forall>i. i + 1 < length (mission_waypoints demo_mission) \<longrightarrow>
       setObjectPosition (service demo_world) (Some (mission_waypoints demo_mission ! i))
         (altitude_msl (mission_waypoints demo_mission ! i)) (Some demo_home) Vector3 =
         Inr (vs ! (2 * i)) \<and>
       setObjectPosition (service demo_world) (Some (mission_waypoints demo_mission ! (i + 1)))
         (altitude_msl (mission_waypoints demo_mission ! (i + 1))) (Some demo_home) Vector3 =
         Inr (vs ! (2 * i + 1))"
    by blast
  from seg [rule_format, of 1] have
    "setObjectPosition (service demo_world)
        (Some \<lparr>latitude = 38, longitude = - 75, altitude_msl = 200\<rparr>) 200
        (Some demo_home) Vector3 = Inr (vs ! 2)"
    "setObjectPosition (service demo_world)
        (Some \<lparr>latitude = 37, longitude = - 75, altitude_msl = 300\<rparr>) 300
        (Some demo_home) Vector3 = Inr (vs ! 3)"
    by (simp_all add: pts)
  moreover from len have "length vs = 4" by (simp add: pts)
  ultimately show ?thesis
    using p demo_world_facts(2) home_pos_demo pts by auto
qed

subsection \<open>Rebuilding twice\<close>

text \<open>
  Claim C8. When a call of \<open>rebuildScene\<close> on a constructed service has succeeded, a
  second call with the same arguments succeeds too; the two scenes are different
  objects, and a renderer finds the same elements in both, in the same order, each
  scene read when its call returns: the same shared objects, markers with the same
  geometry, material, position, scale, rotation and shadow flags, and lines with the
  same vertices and material. The second call moves the ground and the two lights from
  the first scene to the second and leaves the markers and the lines of the first scene
  as they are: read after the second call, the second scene is the ground and the
  lights followed by the elements of the first, so the two scenes have the same markers
  and the same lines then too.
\<close>

theorem rebuildScene_twice:
  assumes "constructed w"
    and "rebuildScene mission obstacles telemetry w = (Inr u, w1)"
    and "rebuildScene mission obstacles telemetry w1 = (r2, w2)"
  shows "r2 = Inr () \<and>
    (\<exists>s1 s2. scene (service w1) = Some s1 \<and> scene (service w2) = Some s2 \<and> s1 \<noteq> s2 \<and>
       scene_elements (service w1) (heap w1) s1 = scene_elements (service w2) (heap w2) s2 \<and>
       scene_elements (service w2) (heap w2) s2 =
         Shared (ground (service w2)) # Shared (skyLight (service w2)) #
         Shared (sunLight (service w2)) # scene_elements (service w2) (heap w2) s1 \<and>
       markers (scene_elements (service w2) (heap w2) s1) =
         markers (scene_elements (service w2) (heap w2) s2) \<and>
       polylines (scene_elements (service w2) (heap w2) s1) =
         polylines (scene_elements (service w2) (heap w2) s2))"
proof -
  note ci = rebuildScene_Inr [OF assms(2)]
  from assms(3) have "r2 = fst (rebuildScene mission obstacles telemetry w1)" by simp
  then have r2: "r2 = Inr ()"
    by (simp add: rebuildScene_complete [OF ci])
  note c1 = constructed_rebuildScene [OF assms(1,2)]
  from assms(3) r2 have run2: "rebuildScene mission obstacles telemetry w1 = (Inr (), w2)"
    by simp
  note rb1 = rebuilt(1-3) [OF assms(1,2)]
  note rb2 = rebuilt(1,2) [OF c1 run2]
  from rebuildScene_objects(1) [OF assms(1,2)]
  have "length (heap w) \<noteq> length (heap w1)" by simp
  moreover have "scene_elements (service w1) (heap w1) (length (heap w)) =
      scene_elements (service w2) (heap w2) (length (heap w1))"
    by (simp add: rb1(2) rb2(2)) (simp add: rb1(3))
  moreover
  have svc: "ground (service w2) = ground (service w)"
    "skyLight (service w2) = skyLight (service w)"
    "sunLight (service w2) = sunLight (service w)"
    by (simp_all add: rebuilt(3) [OF c1 run2] rb1(3))
  have "scene_elements (service w2) (heap w2) (length (heap w)) =
      scene_elements (service w) (heap w2) (length (heap w))"
    by (simp add: rebuilt(3) [OF c1 run2] rb1(3))
  with earlier_scene [OF assms]
  have first: "scene_elements (service w2) (heap w2) (length (heap w)) =
      fresh_elements (service w) mission obstacles telemetry"
    by simp
  have "expected_elements (service w1) mission obstacles telemetry =
      expected_elements (service w) mission obstacles telemetry"
    by (simp add: rb1(3))
  then have second: "scene_elements (service w2) (heap w2) (length (heap w1)) =
      Shared (ground (service w2)) # Shared (skyLight (service w2)) #
      Shared (sunLight (service w2)) # scene_elements (service w2) (heap w2) (length (heap w))"
    by (simp add: rb2(2) first svc expected_elements_def)
  moreover from second
  have "markers (scene_elements (service w2) (heap w2) (length (heap w))) =
         markers (scene_elements (service w2) (heap w2) (length (heap w1)))"
    and "polylines (scene_elements (service w2) (heap w2) (length (heap w))) =
         polylines (scene_elements (service w2) (heap w2) (length (heap w1)))"
    by simp_all
  ultimately show ?thesis
    using r2 rb1(1) rb2(1) by blast
qed

text \<open>The example, rebuilt a second time.\<close>

theorem rebuildScene_twice_witness:
  "constructed demo_world \<and>
   fst (rebuildScene (Some demo_mission) (Some demo_obstacles) (Some demo_telemetry)
      demo_rebuilt) = Inr () \<and>
   scene (service demo_rebuilt) = Some 16 \<and>
   (\<exists>s2. scene (service (snd (rebuildScene (Some demo_mission) (Some demo_obstacles)
         (Some demo_telemetry) demo_rebuilt))) = Some s2 \<and>
      16 \<noteq> s2 \<and>
      scene_elements (service demo_rebuilt) (heap demo_rebuilt) 16 =
      scene_elements
        (service (snd (rebuildScene (Some demo_mission) (Some demo_obstacles)
           (Some demo_telemetry) demo_rebuilt)))
        (heap (snd (rebuildScene (Some demo_mission) (Some demo_obstacles)
           (Some demo_telemetry) demo_rebuilt))) s2 \<and>
      markers (scene_elements
        (service (snd (rebuildScene (Some demo_mission) (Some demo_obstacles)
           (Some demo_telemetry) demo_rebuilt)))
        (heap (snd (rebuildScene (Some demo_mission) (Some demo_obstacles)
           (Some demo_telemetry) demo_rebuilt))) 16) =
      markers (scene_elements
        (service (snd (rebuildScene (Some demo_mission) (Some demo_obstacles)
           (Some demo_telemetry) demo_rebuilt)))
        (heap (snd (rebuildScene (Some demo_mission) (Some demo_obstacles)
           (Some demo_telemetry) demo_rebuilt))) s2))"
proof -
  let ?r = "fst (rebuildScene (Some demo_mission) (Some demo_obstacles) (Some demo_telemetry)
      demo_rebuilt)"
  let ?w = "snd (rebuildScene (Some demo_mission) (Some demo_obstacles) (Some demo_telemetry)
      demo_rebuilt)"
  have run: "rebuildScene (Some demo_mission) (Some demo_obstacles) (Some demo_telemetry)
      demo_rebuilt = (?r, ?w)" by simp
  note c8 = rebuildScene_twice [OF demo_world_facts(2) rebuildScene_demo run]
  from c8 have r: "?r = Inr ()" by (elim conjE)
  from c8 obtain s1 s2 where "scene (service demo_rebuilt) = Some s1"
    and 2: "scene (service ?w) = Some s2" and "s1 \<noteq> s2"
    and "scene_elements (service demo_rebuilt) (heap demo_rebuilt) s1 =
         scene_elements (service ?w) (heap ?w) s2"
    and "markers (scene_elements (service ?w) (heap ?w) s1) =
         markers (scene_elements (service ?w) (heap ?w) s2)"
    by blast
  with demo_rebuilt_facts(1) have "16 \<noteq> s2"
    and "scene_elements (service demo_rebuilt) (heap demo_rebuilt) 16 =
         scene_elements (service ?w) (heap ?w) s2"
    and "markers (scene_elements (service ?w) (heap ?w) 16) =
         markers (scene_elements (service ?w) (heap ?w) s2)"
    by simp_all
  with 2 r demo_world_facts(2) demo_rebuilt_facts(1) show ?thesis
    by blast
qed
subsection \<open>The resources of the service\<close>

lemma demo_world_objects:
  "list_all (\<lambda>q. \<not> is_scene (heap demo_world ! q)) [0..<16]"
  "parent_of (heap demo_world ! 5) = None"
  by (simp_all add: demo_world_def initial_world_def MissionScene_def alloc_def Let_def
      upt_rec [of _ "numeral n" for n])

lemma demo_rebuilt_objects:
  "length (heap demo_rebuilt) > 16"
  "heap demo_rebuilt ! 5 = with_parent (Some 16) (heap demo_world ! 5)"
  "heap demo_rebuilt ! 0 = with_parent (Some 16) (heap demo_world ! 0)"
  "heap demo_rebuilt ! 1 = with_parent (Some 16) (heap demo_world ! 1)"
  "heap demo_rebuilt ! 16 =
     Scene None ([5, 0, 1] @ new_children 17
       (fresh_elements (service demo_world) (Some demo_mission) (Some demo_obstacles)
          (Some demo_telemetry)))"
  using rebuildScene_objects(1,3-5,7) [OF demo_world_facts(2) rebuildScene_demo]
  by (simp_all add: demo_world_facts)

text \<open>
  Claim C9, as the code has it. A call of \<open>rebuildScene\<close> on a constructed service,
  whether it succeeds or throws, changes no field of the service but \<open>scene\<close>: the
  ground, the lights, the geometries, the materials and the texture are the same
  references, to objects that exist. The call does change objects: \<^verbatim>\<open>scene.add\<close> makes
  the new scene the parent of the ground and of the two lights, which are otherwise as
  they were, and takes each of them out of the children of the object it was in. No
  other object that existed before the call changes in any other way; so an object that
  is no scene and is neither the ground nor a light, such as a geometry, a material or
  the texture, is unchanged. The objects the call creates are scenes, meshes, lines
  and line geometries only.
\<close>

theorem rebuildScene_keeps_resources:
  assumes "constructed w" and "rebuildScene mission obstacles telemetry w = (r, w')"
    and "shared = [ground (service w), skyLight (service w), sunLight (service w)]"
  shows "service w' = (service w)\<lparr>scene := scene (service w')\<rparr> \<and>
    resources (service w') = resources (service w) \<and>
    list_all (\<lambda>a. a < length (heap w)) (resources (service w)) \<and>
    (\<forall>a \<in> set shared. heap w' ! a = with_parent (Some (length (heap w))) (heap w ! a)) \<and>
    (\<forall>q < length (heap w). q \<notin> set shared \<longrightarrow> heap w' ! q = released (heap w) shared q) \<and>
    (\<forall>q < length (heap w). q \<notin> set shared \<longrightarrow> \<not> is_scene (heap w ! q) \<longrightarrow>
       heap w' ! q = heap w ! q) \<and>
    length (heap w) < length (heap w') \<and>
    list_all per_call (drop (length (heap w)) (heap w'))"
proof -
  note f = rebuildScene_frame(1) [OF assms(2)]
  note o = rebuildScene_objects(1-6) [OF assms(1,2)]
  have res: "resources (service w') = resources (service w)"
    by (subst f) (simp add: resources_def)
  from assms(1) have a: "list_all (\<lambda>a. a < length (heap w)) (resources (service w))"
    by (simp add: constructed_def)
  have 1: "\<forall>a \<in> set shared. heap w' ! a = with_parent (Some (length (heap w))) (heap w ! a)"
    by (simp add: assms(3) o(3-5))
  have 2: "heap w' ! q = released (heap w) shared q"
    if "q < length (heap w)" "q \<notin> set shared" for q
    using that o(6) [of q] by (simp add: assms(3))
  have 3: "heap w' ! q = heap w ! q"
    if "q < length (heap w)" "q \<notin> set shared" "\<not> is_scene (heap w ! q)" for q
    using 2 [OF that(1,2)] that(3) by (simp add: released_id)
  from 2 have all2: "\<forall>q < length (heap w). q \<notin> set shared \<longrightarrow>
      heap w' ! q = released (heap w) shared q"
    by blast
  from 3 have all3: "\<forall>q < length (heap w). q \<notin> set shared \<longrightarrow> \<not> is_scene (heap w ! q) \<longrightarrow>
      heap w' ! q = heap w ! q"
    by blast
  from f res a 1 all2 all3 o(1,2) show ?thesis by (intro conjI)
qed

text \<open>
  The example. The ground, the lights and thirteen other objects are what the
  constructor made; after the rebuild the fields of the service name the same objects,
  the ground has the new scene, object 16, as its parent, and the thirteen geometries,
  materials and the texture are as they were.
\<close>

theorem rebuildScene_keeps_resources_witness:
  "constructed demo_world \<and>
   [ground (service demo_world), skyLight (service demo_world), sunLight (service demo_world)] =
     [5, 0, 1] \<and>
   resources (service demo_world) =
     [0, 1, 2, 3, 4, 5, 6, 7, 6, 8, 6, 9, 10, 6, 11, 12, 13, 14, 6, 14, 6, 15] \<and>
   resources (service demo_rebuilt) = resources (service demo_world) \<and>
   length (heap demo_world) = 16 \<and>
   heap demo_rebuilt ! 5 = with_parent (Some 16) (heap demo_world ! 5) \<and>
   list_all (\<lambda>q. \<not> is_scene (heap demo_world ! q) \<and> heap demo_rebuilt ! q = heap demo_world ! q)
     [2, 3, 4, 6, 7, 8, 9, 10, 11, 12, 13, 14, 15] \<and>
   16 < length (heap demo_rebuilt)"
proof -
  have sh: "[5, 0, 1] =
      [ground (service demo_world), skyLight (service demo_world), sunLight (service demo_world)]"
    by (simp add: demo_world_facts)
  note c9 = rebuildScene_keeps_resources [OF demo_world_facts(2) rebuildScene_demo sh,
      unfolded demo_world_facts(1)]
  from c9 have 1: "resources (service demo_rebuilt) = resources (service demo_world)"
    by (elim conjE)
  from c9 have 2: "\<forall>a \<in> set [5, 0, 1].
      heap demo_rebuilt ! a = with_parent (Some 16) (heap demo_world ! a)"
    by (elim conjE)
  from c9 have 3: "\<forall>q < 16. q \<notin> set [5, 0, 1] \<longrightarrow> \<not> is_scene (heap demo_world ! q) \<longrightarrow>
       heap demo_rebuilt ! q = heap demo_world ! q"
    by (elim conjE)
  from c9 have 4: "16 < length (heap demo_rebuilt)"
    by (elim conjE)
  from 2 have 5: "heap demo_rebuilt ! 5 = with_parent (Some 16) (heap demo_world ! 5)"
    by simp
  have 6: "\<not> is_scene (heap demo_world ! q) \<and> heap demo_rebuilt ! q = heap demo_world ! q"
    if "q \<in> set [2, 3, 4, 6, 7, 8, 9, 10, 11, 12, 13, 14, 15]" for q :: nat
  proof -
    from that have "q < 16" "q \<notin> set [5, 0, 1]" by auto
    moreover from \<open>q < 16\<close> demo_world_objects(1) have "\<not> is_scene (heap demo_world ! q)"
      by (simp add: list_all_iff)
    ultimately show ?thesis using 3 by blast
  qed
  then have 7: "list_all (\<lambda>q. \<not> is_scene (heap demo_world ! q) \<and>
      heap demo_rebuilt ! q = heap demo_world ! q) [2, 3, 4, 6, 7, 8, 9, 10, 11, 12, 13, 14, 15]"
    unfolding list_all_iff by blast
  from demo_world_facts(2) sh [symmetric] resources_demo_world 1 demo_world_facts(1) 5 7 4
  show ?thesis
    by (intro conjI)
qed

text \<open>
  The claim as stated, that the call never mutates the ground mesh and the lights,
  does not hold. After the constructor the ground has no parent; the first rebuild
  makes scene 16 its parent, so the ground mesh is not the object it was. A second
  rebuild takes the ground and the two lights out of the children of scene 16, where
  the first rebuild had put them before the markers and the lines.
\<close>

theorem rebuildScene_reparents_counterexample:
  "ground (service demo_world) = 5 \<and> ground (service demo_rebuilt) = 5 \<and>
   parent_of (heap demo_world ! 5) = None \<and>
   parent_of (heap demo_rebuilt ! 5) = Some 16 \<and>
   heap demo_rebuilt ! 5 \<noteq> heap demo_world ! 5 \<and>
   children (heap demo_rebuilt ! 16) =
     [5, 0, 1] @
     children (heap (snd (rebuildScene (Some demo_mission) (Some demo_obstacles)
        (Some demo_telemetry) demo_rebuilt)) ! 16)"
proof -
  let ?w = "snd (rebuildScene (Some demo_mission) (Some demo_obstacles)
        (Some demo_telemetry) demo_rebuilt)"
  let ?F = "fresh_elements (service demo_world) (Some demo_mission) (Some demo_obstacles)
          (Some demo_telemetry)"
  have run: "rebuildScene (Some demo_mission) (Some demo_obstacles) (Some demo_telemetry)
      demo_rebuilt = (fst (rebuildScene (Some demo_mission) (Some demo_obstacles)
        (Some demo_telemetry) demo_rebuilt), ?w)"
    by simp
  note c = constructed_rebuildScene [OF demo_world_facts(2) rebuildScene_demo]
  have svc: "ground (service demo_rebuilt) = 5" "skyLight (service demo_rebuilt) = 0"
    "sunLight (service demo_rebuilt) = 1"
    by (simp_all add: demo_rebuilt_facts(3) demo_world_facts)
  from demo_world_objects(1) have k: "\<not> is_scene (heap demo_world ! 5)"
    "\<not> is_scene (heap demo_world ! 0)" "\<not> is_scene (heap demo_world ! 1)"
    by (simp_all add: list_all_iff)
  have p: "parent_of (with_parent (Some 16) v) = Some 16" if "is_object3d v" for v
    using that by (cases v) simp_all
  have o3: "is_object3d (heap demo_world ! 5)" "is_object3d (heap demo_world ! 0)"
    "is_object3d (heap demo_world ! 1)"
    by (simp_all add: demo_world_def initial_world_def MissionScene_def alloc_def Let_def)
  have par: "parent_of (heap demo_rebuilt ! 5) = Some 16"
    "parent_of (heap demo_rebuilt ! 0) = Some 16" "parent_of (heap demo_rebuilt ! 1) = Some 16"
    using demo_rebuilt_objects(2-4) o3 by (simp_all add: p)
  from rebuildScene_objects(6) [OF c run, of 16] demo_rebuilt_objects(1)
  have "heap ?w ! 16 = released (heap demo_rebuilt) [5, 0, 1] 16"
    by (simp add: svc)
  with par have "heap ?w ! 16 = Scene None (new_children 17 ?F)"
    by (simp add: released_def demo_rebuilt_objects(5))
  then have 1: "children (heap demo_rebuilt ! 16) = [5, 0, 1] @ children (heap ?w ! 16)"
    by (simp add: demo_rebuilt_objects(5))
  from par(1) demo_world_objects(2) have 2: "heap demo_rebuilt ! 5 \<noteq> heap demo_world ! 5"
    by auto
  from demo_world_facts(3) svc(1) demo_world_objects(2) par(1) 2 1 show ?thesis
    by (intro conjI)
qed

subsection \<open>A call that throws\<close>

text \<open>
  Claim C10. When a call of \<open>rebuildScene\<close> does not succeed it ends in a
  \<^verbatim>\<open>TypeError\<close>, the \<open>scene\<close> field holds the value it held before, and nothing has been
  broadcast. A mission with a home position together with absent obstacles or absent
  telemetry is such a call.
\<close>

theorem rebuildScene_throw_keeps_scene:
  assumes "rebuildScene mission obstacles telemetry w = (r, w')"
  shows "(r \<noteq> Inr () \<longrightarrow>
            r = Inl TypeError \<and> scene (service w') = scene (service w) \<and>
            broadcasts w' = broadcasts w) \<and>
         ((\<exists>m home. mission = Some m \<and> home_pos m = Some home) \<and>
          (obstacles = None \<or> telemetry = None) \<longrightarrow> r = Inl TypeError)"
proof -
  have "r = Inl TypeError"
    if "\<exists>m home. mission = Some m \<and> home_pos m = Some home"
      and "obstacles = None \<or> telemetry = None"
  proof -
    from that have "\<not> complete_input mission obstacles telemetry"
      by (auto simp: complete_input_def)
    from rebuildScene_incomplete [OF this, of w]
    have "fst (rebuildScene mission obstacles telemetry w) = Inl TypeError"
      by (elim exE conjE) simp
    with assms show ?thesis by simp
  qed
  moreover have "r = Inl TypeError \<and> scene (service w') = scene (service w) \<and>
            broadcasts w' = broadcasts w" if "r \<noteq> Inr ()"
    using rebuildScene_frame(3) [OF assms that] by simp
  ultimately show ?thesis by blast
qed

text \<open>
  After the example has been built once, a second call without obstacles throws; the
  service still holds scene 16 and the log still holds the one event of the first call.
\<close>

theorem rebuildScene_throw_keeps_scene_witness:
  "fst (rebuildScene (Some demo_mission) None (Some demo_telemetry) demo_rebuilt) = Inl TypeError \<and>
   scene (service demo_rebuilt) = Some 16 \<and>
   scene (service (snd (rebuildScene (Some demo_mission) None (Some demo_telemetry)
      demo_rebuilt))) = Some 16 \<and>
   broadcasts (snd (rebuildScene (Some demo_mission) None (Some demo_telemetry) demo_rebuilt)) =
     [\<lparr>event_name = ''MissionScene.sceneUpdated'', observed_scene = Some 16\<rparr>]"
proof -
  let ?r = "fst (rebuildScene (Some demo_mission) None (Some demo_telemetry) demo_rebuilt)"
  let ?w = "snd (rebuildScene (Some demo_mission) None (Some demo_telemetry) demo_rebuilt)"
  have run: "rebuildScene (Some demo_mission) None (Some demo_telemetry) demo_rebuilt = (?r, ?w)"
    by simp
  have home: "\<exists>m home. Some demo_mission = Some m \<and> home_pos m = Some home"
    by (simp add: demo_mission_def)
  from rebuildScene_throw_keeps_scene [OF run] home have r: "?r = Inl TypeError" by blast
  then have "?r \<noteq> Inr ()" by simp
  with rebuildScene_throw_keeps_scene [OF run] have "scene (service ?w) = scene (service demo_rebuilt)"
    and "broadcasts ?w = broadcasts demo_rebuilt" by blast+
  with r demo_rebuilt_facts(1,5) demo_world_fresh(1) show ?thesis
    by simp
qed

end
